theory Spec2Isabelle
  imports Complex_Main "HOL-Library.Word" "HOL-Library.Multiset"
begin

section \<open>Data model\<close>

text \<open>
  Identifiers are \<open>uuid.UUID\<close> values (16 bytes). Monetary amounts are
  \<open>decimal.Decimal\<close> values of the shopspring library, an arbitrary-precision
  decimal whose \<open>Add\<close> and \<open>Sub\<close> are exact; an amount is modelled by its
  numeric value, a rational number. Timestamps are integers.
\<close>

type_synonym uuid = "128 word"
type_synonym decimal = rat
type_synonym time = int

definition uuid_Nil :: uuid where
  "uuid_Nil = 0"

text \<open>The Go structs of \<open>internal/group/group.go\<close>.\<close>

record Group =
  g_ID :: uuid
  g_Name :: string
  g_CreatedBy :: uuid
  g_CreatedAt :: time

record CreateGroupRequest =
  cgr_Name :: string

record AddMemberRequest =
  amr_Email :: string

record Balance =
  b_UserID :: uuid
  b_Amount :: decimal

record GroupMember =
  gm_UserID :: uuid
  gm_Email :: string
  gm_Username :: string

record GroupExpense =
  ge_ID :: uuid
  ge_Description :: string
  ge_TotalAmount :: decimal
  ge_PaidBy :: uuid
  ge_CreatedAt :: time

record GroupDetails =
  gd_ID :: uuid
  gd_Name :: string
  gd_CreatedBy :: uuid
  gd_CreatedAt :: time
  gd_Members :: "GroupMember list"
  gd_Expenses :: "GroupExpense list"

text \<open>
  The rows of the tables the handlers read and write, with the columns their SQL
  statements name: \<open>users(id, email, username)\<close>,
  \<open>expenses(id, group_id, description, total_amount, paid_by, created_at)\<close>,
  \<open>expense_splits(expense_id, user_id, amount)\<close> and
  \<open>settlements(group_id, from_user, to_user, amount)\<close>. A row of \<open>groups\<close> is a
  \<open>Group\<close>; a row of \<open>group_members(group_id, user_id)\<close> is a pair.
\<close>

record User =
  u_id :: uuid
  u_email :: string
  u_username :: string

record Expense =
  e_id :: uuid
  e_group_id :: uuid
  e_description :: string
  e_total_amount :: decimal
  e_paid_by :: uuid
  e_created_at :: time

record ExpenseSplit =
  s_expense_id :: uuid
  s_user_id :: uuid
  s_amount :: decimal

record Settlement =
  t_group_id :: uuid
  t_from_user :: uuid
  t_to_user :: uuid
  t_amount :: decimal

text \<open>The committed state of the database: one list of rows per table.\<close>

record DB =
  groups :: "Group list"
  users :: "User list"
  group_members :: "(uuid \<times> uuid) list"
  expenses :: "Expense list"
  expense_splits :: "ExpenseSplit list"
  settlements :: "Settlement list"

section \<open>The persistence layer as the handlers see it\<close>

text \<open>
  A call site is named by the handler and the statement. The persistence layer can
  fail a read in three ways, and the handlers see only two of them:
  \<^item> \<open>fault f s\<close>: the call made at site \<open>s\<close> returns an error (a lost
    connection, a cancelled context), which the handler inspects;
  \<^item> \<open>scan_fault f s i\<close>: \<open>Scan\<close> of row number \<open>i\<close> of the result set read at
    \<open>s\<close> returns an error, which the handler inspects;
  \<^item> \<open>cut f s = Some n\<close>: the result set read at \<open>s\<close> ends after \<open>n\<close> rows
    because the read failed on the way. \<open>Next\<close> then returns false and the error
    is held by \<open>rows.Err()\<close>, which no loop of the handlers reads: the loop ends
    as at the end of the rows and the handler goes on with the rows it received.
\<close>

datatype dberr = ErrNoRows | ErrFault | ErrUnique

datatype site =
    CG_Begin | CG_InsertGroup | CG_InsertMember | CG_Commit
  | AM_IsMember | AM_UserByEmail | AM_AlreadyMember | AM_Insert
  | GB_IsMember | GB_Members | GB_Expenses | GB_Splits | GB_Settlements
  | GG_Group | GG_Members | GG_Expenses

record faults =
  fault :: "site \<Rightarrow> bool"
  scan_fault :: "site \<Rightarrow> nat \<Rightarrow> bool"
  cut :: "site \<Rightarrow> nat option"

definition no_faults :: faults where
  "no_faults = \<lparr>fault = (\<lambda>s. False), scan_fault = (\<lambda>s i. False), cut = (\<lambda>s. None)\<rparr>"

text \<open>
  The rows that a loop \<open>for rows.Next() { ... }\<close> receives of the rows a statement
  selects: all of them, or the first \<open>n\<close> when the read is cut there.
\<close>

definition received :: "faults \<Rightarrow> site \<Rightarrow> 'r list \<Rightarrow> 'r list" where
  "received f s rows = (case cut f s of None \<Rightarrow> rows | Some n \<Rightarrow> take n rows)"

text \<open>
  \<open>Pool.Query\<close> followed by the iteration with \<open>Next\<close>: the error of the call, or
  the rows that the loop receives.
\<close>

definition Query :: "faults \<Rightarrow> site \<Rightarrow> 'r list \<Rightarrow> dberr + 'r list" where
  "Query f s rows = (if fault f s then Inl ErrFault else Inr (received f s rows))"

text \<open>
  \<open>Pool.QueryRow(...).Scan(...)\<close>: the first selected row, \<open>ErrNoRows\<close> when the
  statement selects none, or the failure of the call.
\<close>

definition QueryRow :: "bool \<Rightarrow> 'r list \<Rightarrow> dberr + 'r" where
  "QueryRow failing rows =
     (if failing then Inl ErrFault
      else case rows of [] \<Rightarrow> Inl ErrNoRows | r # rest \<Rightarrow> Inr r)"

text \<open>The result sets of the SELECT statements.\<close>

definition member_rows :: "DB \<Rightarrow> uuid \<Rightarrow> uuid list" where
  \<comment> \<open>SELECT user_id FROM group_members WHERE group_id = $1\<close>
  "member_rows db groupID = map snd (filter (\<lambda>gm. fst gm = groupID) (group_members db))"

definition expense_rows :: "DB \<Rightarrow> uuid \<Rightarrow> (uuid \<times> decimal) list" where
  \<comment> \<open>SELECT paid_by, total_amount FROM expenses WHERE group_id = $1\<close>
  "expense_rows db groupID =
     map (\<lambda>e. (e_paid_by e, e_total_amount e))
       (filter (\<lambda>e. e_group_id e = groupID) (expenses db))"

definition split_rows :: "DB \<Rightarrow> uuid \<Rightarrow> (uuid \<times> decimal) list" where
  \<comment> \<open>SELECT es.user_id, es.amount FROM expense_splits es
      JOIN expenses e ON es.expense_id = e.id WHERE e.group_id = $1\<close>
  "split_rows db groupID =
     concat (map (\<lambda>es. map (\<lambda>e. (s_user_id es, s_amount es))
                    (filter (\<lambda>e. s_expense_id es = e_id e \<and> e_group_id e = groupID)
                       (expenses db)))
               (expense_splits db))"

definition settlement_rows :: "DB \<Rightarrow> uuid \<Rightarrow> (uuid \<times> uuid \<times> decimal) list" where
  \<comment> \<open>SELECT from_user, to_user, amount FROM settlements WHERE group_id = $1\<close>
  "settlement_rows db groupID =
     map (\<lambda>t. (t_from_user t, t_to_user t, t_amount t))
       (filter (\<lambda>t. t_group_id t = groupID) (settlements db))"

section \<open>Responses\<close>

datatype body =
    ErrorBody string
  | MessageBody string
  | GroupBody Group
  | BalancesBody "Balance list"
  | DetailsBody GroupDetails bool

datatype response = JSON nat body

fun status :: "response \<Rightarrow> nat" where
  "status (JSON code b) = code"

section \<open>The balance computation of GetBalances\<close>

type_synonym balances = "uuid \<rightharpoonup> decimal"

text \<open>
  The guarded updates of the three loops:
  \<open>if bal, ok := members[u]; ok { members[u] = bal.Add(a) }\<close> and the same with
  \<open>Sub\<close>. A user who is not a key of the map is skipped.
\<close>

definition add_if_member :: "balances \<Rightarrow> uuid \<Rightarrow> decimal \<Rightarrow> balances" where
  "add_if_member members u a =
     (case members u of Some bal \<Rightarrow> members(u \<mapsto> bal + a) | None \<Rightarrow> members)"

definition sub_if_member :: "balances \<Rightarrow> uuid \<Rightarrow> decimal \<Rightarrow> balances" where
  "sub_if_member members u a =
     (case members u of Some bal \<Rightarrow> members(u \<mapsto> bal - a) | None \<Rightarrow> members)"

text \<open>
  The four row loops. Each takes the scan faults of its result set and the number of
  the next row; a failing \<open>Scan\<close> ends the handler with status 500.
\<close>

fun scan_members :: "(nat \<Rightarrow> bool) \<Rightarrow> nat \<Rightarrow> uuid list \<Rightarrow> balances \<Rightarrow> response + balances" where
  "scan_members sf i [] members = Inr members"
| "scan_members sf i (uid # rows) members =
     (if sf i then Inl (JSON 500 (ErrorBody ''failed to scan member''))
      else scan_members sf (Suc i) rows (members(uid \<mapsto> 0)))"

fun scan_expenses ::
  "(nat \<Rightarrow> bool) \<Rightarrow> nat \<Rightarrow> (uuid \<times> decimal) list \<Rightarrow> balances \<Rightarrow> response + balances" where
  "scan_expenses sf i [] members = Inr members"
| "scan_expenses sf i ((paidBy, tot) # rows) members =
     (if sf i then Inl (JSON 500 (ErrorBody ''failed to scan expense''))
      else scan_expenses sf (Suc i) rows (add_if_member members paidBy tot))"

fun scan_splits ::
  "(nat \<Rightarrow> bool) \<Rightarrow> nat \<Rightarrow> (uuid \<times> decimal) list \<Rightarrow> balances \<Rightarrow> response + balances" where
  "scan_splits sf i [] members = Inr members"
| "scan_splits sf i ((uid, amt) # rows) members =
     (if sf i then Inl (JSON 500 (ErrorBody ''failed to scan split''))
      else scan_splits sf (Suc i) rows (sub_if_member members uid amt))"

fun scan_settlements ::
  "(nat \<Rightarrow> bool) \<Rightarrow> nat \<Rightarrow> (uuid \<times> uuid \<times> decimal) list \<Rightarrow> balances \<Rightarrow> response + balances" where
  "scan_settlements sf i [] members = Inr members"
| "scan_settlements sf i ((from, to, amt) # rows) members =
     (if sf i then Inl (JSON 500 (ErrorBody ''failed to scan settlement''))
      else scan_settlements sf (Suc i) rows
             (add_if_member (sub_if_member members from amt) to amt))"

text \<open>
  Lines 178 to 260 of \<open>GetBalances\<close>: the four reads and their loops, from the empty
  map to the final one. The result is the early response of a read whose failure the
  handler sees, or the map \<open>members\<close> as it stands before the conversion to a slice:
  the map of the rows received, which are fewer than the rows selected when a read is
  cut.
\<close>

definition ComputeBalances :: "faults \<Rightarrow> DB \<Rightarrow> uuid \<Rightarrow> response + balances" where
  "ComputeBalances f db groupID =
     (case Query f GB_Members (member_rows db groupID) of
        Inl err \<Rightarrow> Inl (JSON 500 (ErrorBody ''failed to get members''))
      | Inr rows \<Rightarrow>
     (case scan_members (scan_fault f GB_Members) 0 rows Map.empty of
        Inl r \<Rightarrow> Inl r
      | Inr members0 \<Rightarrow>
     (case Query f GB_Expenses (expense_rows db groupID) of
        Inl err \<Rightarrow> Inl (JSON 500 (ErrorBody ''failed to get expenses''))
      | Inr expRows \<Rightarrow>
     (case scan_expenses (scan_fault f GB_Expenses) 0 expRows members0 of
        Inl r \<Rightarrow> Inl r
      | Inr members1 \<Rightarrow>
     (case Query f GB_Splits (split_rows db groupID) of
        Inl err \<Rightarrow> Inl (JSON 500 (ErrorBody ''failed to get expense splits''))
      | Inr splitRows \<Rightarrow>
     (case scan_splits (scan_fault f GB_Splits) 0 splitRows members1 of
        Inl r \<Rightarrow> Inl r
      | Inr members2 \<Rightarrow>
     (case Query f GB_Settlements (settlement_rows db groupID) of
        Inl err \<Rightarrow> Inl (JSON 500 (ErrorBody ''failed to get settlements''))
      | Inr settRows \<Rightarrow>
        scan_settlements (scan_fault f GB_Settlements) 0 settRows members2)))))))"

text \<open>The sum over all entries of a balance map.\<close>

definition total_balance :: "balances \<Rightarrow> decimal" where
  "total_balance m = (\<Sum>u\<in>dom m. the (m u))"

section \<open>The request context\<close>

text \<open>
  What a handler reads from \<open>*gin.Context\<close>, each as the value the library call
  returns: \<open>middleware.GetUserID(c)\<close> (\<open>None\<close> when \<open>ok\<close> is false),
  \<open>uuid.Parse(c.Param("id"))\<close> (\<open>None\<close> when it returns an error),
  \<open>c.ShouldBindJSON(&req)\<close> (\<open>Inl\<close> the error's text) and
  \<open>validator.New().Struct(req)\<close> on the bound request (\<open>Some\<close> the error's text).
\<close>

record 'b ctx =
  c_user :: "uuid option"
  c_param_id :: "uuid option"
  c_bind :: "string + 'b"
  c_validate :: "'b \<Rightarrow> string option"

section \<open>Helpers of internal/helpers/db\_helpers.go\<close>

text \<open>
  Both return Go's tuple as it is. \<open>SELECT EXISTS(...)\<close> always selects one row.
  The first argument says whether the persistence layer fails the call.
\<close>

definition IsGroupMember :: "bool \<Rightarrow> DB \<Rightarrow> uuid \<Rightarrow> uuid \<Rightarrow> bool \<times> dberr option" where
  "IsGroupMember failing db groupID userID =
     (case QueryRow failing [(groupID, userID) \<in> set (group_members db)] of
        Inl err \<Rightarrow> (False, Some err)
      | Inr isMember \<Rightarrow> (isMember, None))"

definition user_id_rows :: "DB \<Rightarrow> string \<Rightarrow> uuid list" where
  \<comment> \<open>SELECT id FROM users WHERE email = $1\<close>
  "user_id_rows db email = map u_id (filter (\<lambda>u. u_email u = email) (users db))"

definition GetUserByEmail :: "bool \<Rightarrow> DB \<Rightarrow> string \<Rightarrow> uuid \<times> bool \<times> dberr option" where
  "GetUserByEmail failing db email =
     (case QueryRow failing (user_id_rows db email) of
        Inl err \<Rightarrow> (uuid_Nil, False, None)
      | Inr userID \<Rightarrow> (userID, True, None))"

section \<open>Writes and the transaction of CreateGroup\<close>

text \<open>
  Modelled from the spec: the declarations of the tables are not among the sources.
  The spec gives \<open>group_members(group_id, user_id)\<close> as a unique pair and identifiers as
  globally unique, so an insert of a present pair, or of a group whose id is present,
  fails.
\<close>

definition insert_group :: "bool \<Rightarrow> DB \<Rightarrow> Group \<Rightarrow> dberr + DB" where
  "insert_group failing db g =
     (if failing then Inl ErrFault
      else if g_ID g \<in> set (map g_ID (groups db)) then Inl ErrUnique
      else Inr (db\<lparr>groups := groups db @ [g]\<rparr>))"

definition insert_group_member :: "bool \<Rightarrow> DB \<Rightarrow> uuid \<times> uuid \<Rightarrow> dberr + DB" where
  "insert_group_member failing db row =
     (if failing then Inl ErrFault
      else if row \<in> set (group_members db) then Inl ErrUnique
      else Inr (db\<lparr>group_members := group_members db @ [row]\<rparr>))"

text \<open>
  A transaction keeps the committed state it began from and its own view. Its writes
  change the view only; \<open>Commit\<close> publishes the view and \<open>Rollback\<close> (the deferred
  call of \<open>CreateGroup\<close>) leaves the committed state as it was.
\<close>

record tx =
  tx_base :: DB
  tx_view :: DB

definition Begin :: "DB \<Rightarrow> tx" where
  "Begin db = \<lparr>tx_base = db, tx_view = db\<rparr>"

definition Rollback :: "tx \<Rightarrow> DB" where
  "Rollback t = tx_base t"

definition Commit :: "tx \<Rightarrow> DB" where
  "Commit t = tx_view t"

section \<open>CreateGroup\<close>

text \<open>
  \<open>new_id\<close> and \<open>now\<close> are the \<open>id\<close> and \<open>created_at\<close> that the database gives the
  new row (\<open>RETURNING id, name, created_by, created_at\<close>). The result is the response
  and the committed state the call leaves.
\<close>

definition CreateGroup ::
  "faults \<Rightarrow> uuid \<Rightarrow> time \<Rightarrow> CreateGroupRequest ctx \<Rightarrow> DB \<Rightarrow> response \<times> DB" where
  "CreateGroup f new_id now c db =
     (case c_user c of
        None \<Rightarrow> (JSON 401 (ErrorBody ''unauthorized''), db)
      | Some userID \<Rightarrow>
     (case c_bind c of
        Inl msg \<Rightarrow> (JSON 400 (ErrorBody msg), db)
      | Inr req \<Rightarrow>
     (case c_validate c req of
        Some msg \<Rightarrow> (JSON 400 (ErrorBody msg), db)
      | None \<Rightarrow>
     (if fault f CG_Begin
      then (JSON 500 (ErrorBody ''failed to start transaction''), db)
      else
     (case insert_group (fault f CG_InsertGroup) (tx_view (Begin db))
             \<lparr>g_ID = new_id, g_Name = cgr_Name req, g_CreatedBy = userID, g_CreatedAt = now\<rparr> of
        Inl err \<Rightarrow> (JSON 500 (ErrorBody ''failed to create group''), Rollback (Begin db))
      | Inr view1 \<Rightarrow>
     (case insert_group_member (fault f CG_InsertMember) view1 (new_id, userID) of
        Inl err \<Rightarrow>
          (JSON 500 (ErrorBody ''failed to add creator as member''),
           Rollback ((Begin db)\<lparr>tx_view := view1\<rparr>))
      | Inr view2 \<Rightarrow>
     (if fault f CG_Commit
      then (JSON 500 (ErrorBody ''failed to commit transaction''),
            Rollback ((Begin db)\<lparr>tx_view := view2\<rparr>))
      else (JSON 201 (GroupBody
              \<lparr>g_ID = new_id, g_Name = cgr_Name req, g_CreatedBy = userID, g_CreatedAt = now\<rparr>),
            Commit ((Begin db)\<lparr>tx_view := view2\<rparr>)))))))))"

section \<open>AddMember\<close>

text \<open>
  The checks and the insert are separate statements outside any transaction, so other
  requests may commit between them. \<open>racing\<close> is the effect of those commits on the
  database between the already-member check and the insert (the identity when there
  are none).
\<close>

definition AddMember ::
  "faults \<Rightarrow> (DB \<Rightarrow> DB) \<Rightarrow> AddMemberRequest ctx \<Rightarrow> DB \<Rightarrow> response \<times> DB" where
  "AddMember f racing c db =
     (case c_user c of
        None \<Rightarrow> (JSON 401 (ErrorBody ''unauthorized''), db)
      | Some requesterID \<Rightarrow>
     (case c_param_id c of
        None \<Rightarrow> (JSON 400 (ErrorBody ''invalid group id''), db)
      | Some groupID \<Rightarrow>
     (case QueryRow (fault f AM_IsMember) [(groupID, requesterID) \<in> set (group_members db)] of
        Inl err \<Rightarrow> (JSON 403 (ErrorBody ''not a member of the group''), db)
      | Inr isMember \<Rightarrow>
     (if \<not> isMember then (JSON 403 (ErrorBody ''not a member of the group''), db)
      else
     (case c_bind c of
        Inl msg \<Rightarrow> (JSON 400 (ErrorBody msg), db)
      | Inr req \<Rightarrow>
     (case c_validate c req of
        Some msg \<Rightarrow> (JSON 400 (ErrorBody msg), db)
      | None \<Rightarrow>
     (case GetUserByEmail (fault f AM_UserByEmail) db (amr_Email req) of
        (userID, exists, err) \<Rightarrow>
     (if err \<noteq> None then (JSON 500 (ErrorBody ''database error''), db)
      else if \<not> exists then (JSON 404 (ErrorBody ''user not found with this email''), db)
      else
     (case IsGroupMember (fault f AM_AlreadyMember) db groupID userID of
        (already, err2) \<Rightarrow>
     (if err2 \<noteq> None then (JSON 500 (ErrorBody ''database error''), db)
      else if already then (JSON 400 (ErrorBody ''user already in group''), db)
      else
     (case insert_group_member (fault f AM_Insert) (racing db) (groupID, userID) of
        Inl err3 \<Rightarrow> (JSON 500 (ErrorBody ''failed to add member''), racing db)
      | Inr db' \<Rightarrow> (JSON 200 (MessageBody ''member added''), db'))))))))))))"

section \<open>GetBalances\<close>

text \<open>
  The conversion to a slice ranges over the map, which Go does in an order it does
  not specify. \<open>order\<close> is the order of one run; \<open>range_order order m\<close> says that it
  is an iteration of \<open>m\<close>: every key once.
\<close>

fun balances_slice :: "uuid list \<Rightarrow> balances \<Rightarrow> Balance list" where
  "balances_slice [] members = []"
| "balances_slice (uid # order) members =
     (case members uid of
        Some amt \<Rightarrow> \<lparr>b_UserID = uid, b_Amount = amt\<rparr> # balances_slice order members
      | None \<Rightarrow> balances_slice order members)"

definition range_order :: "uuid list \<Rightarrow> balances \<Rightarrow> bool" where
  "range_order order m \<longleftrightarrow> distinct order \<and> set order = dom m"

definition GetBalances :: "faults \<Rightarrow> uuid list \<Rightarrow> unit ctx \<Rightarrow> DB \<Rightarrow> response" where
  "GetBalances f order c db =
     (case c_user c of
        None \<Rightarrow> JSON 401 (ErrorBody ''unauthorized'')
      | Some userID \<Rightarrow>
     (case c_param_id c of
        None \<Rightarrow> JSON 400 (ErrorBody ''invalid group id'')
      | Some groupID \<Rightarrow>
     (case IsGroupMember (fault f GB_IsMember) db groupID userID of
        (isMember, err) \<Rightarrow>
     (if err \<noteq> None \<or> \<not> isMember then JSON 403 (ErrorBody ''not a member of the group'')
      else
     (case ComputeBalances f db groupID of
        Inl r \<Rightarrow> r
      | Inr members \<Rightarrow> JSON 200 (BalancesBody (balances_slice order members)))))))"

section \<open>GetGroup\<close>

definition group_rows :: "DB \<Rightarrow> uuid \<Rightarrow> Group list" where
  \<comment> \<open>SELECT id, name, created_by, created_at FROM groups WHERE id = $1\<close>
  "group_rows db groupID = filter (\<lambda>g. g_ID g = groupID) (groups db)"

definition group_member_rows :: "DB \<Rightarrow> uuid \<Rightarrow> GroupMember list" where
  \<comment> \<open>SELECT u.id, u.email, u.username FROM users u
      JOIN group_members gm ON u.id = gm.user_id WHERE gm.group_id = $1\<close>
  "group_member_rows db groupID =
     concat (map (\<lambda>u. map (\<lambda>gm. \<lparr>gm_UserID = u_id u, gm_Email = u_email u,
                                  gm_Username = u_username u\<rparr>)
                    (filter (\<lambda>gm. u_id u = snd gm \<and> fst gm = groupID) (group_members db)))
               (users db))"

definition group_expense_rows :: "DB \<Rightarrow> uuid \<Rightarrow> GroupExpense list" where
  \<comment> \<open>SELECT id, description, total_amount, paid_by, created_at FROM expenses
      WHERE group_id = $1 ORDER BY created_at DESC (rows of equal created_at in the
      order the sort leaves them)\<close>
  "group_expense_rows db groupID =
     map (\<lambda>e. \<lparr>ge_ID = e_id e, ge_Description = e_description e,
                ge_TotalAmount = e_total_amount e, ge_PaidBy = e_paid_by e,
                ge_CreatedAt = e_created_at e\<rparr>)
       (rev (sort_key e_created_at (filter (\<lambda>e. e_group_id e = groupID) (expenses db))))"

fun scan_group_members ::
  "(nat \<Rightarrow> bool) \<Rightarrow> nat \<Rightarrow> GroupMember list \<Rightarrow> GroupMember list \<Rightarrow> response + GroupMember list" where
  "scan_group_members sf i [] members = Inr members"
| "scan_group_members sf i (m # rows) members =
     (if sf i then Inl (JSON 500 (ErrorBody ''failed to scan member''))
      else scan_group_members sf (Suc i) rows (members @ [m]))"

fun scan_group_expenses ::
  "(nat \<Rightarrow> bool) \<Rightarrow> nat \<Rightarrow> GroupExpense list \<Rightarrow> GroupExpense list \<Rightarrow> response + GroupExpense list" where
  "scan_group_expenses sf i [] exps = Inr exps"
| "scan_group_expenses sf i (e # rows) exps =
     (if sf i then Inl (JSON 500 (ErrorBody ''failed to scan expense''))
      else scan_group_expenses sf (Suc i) rows (exps @ [e]))"

text \<open>The loop that looks the caller up among the members read.\<close>

fun is_member_loop :: "GroupMember list \<Rightarrow> uuid \<Rightarrow> bool" where
  "is_member_loop [] userID = False"
| "is_member_loop (m # members) userID =
     (if gm_UserID m = userID then True else is_member_loop members userID)"

definition GetGroup :: "faults \<Rightarrow> unit ctx \<Rightarrow> DB \<Rightarrow> response" where
  "GetGroup f c db =
     (case c_user c of
        None \<Rightarrow> JSON 401 (ErrorBody ''unauthorized'')
      | Some userID \<Rightarrow>
     (case c_param_id c of
        None \<Rightarrow> JSON 400 (ErrorBody ''invalid group id'')
      | Some groupID \<Rightarrow>
     (case QueryRow (fault f GG_Group) (group_rows db groupID) of
        Inl err \<Rightarrow> JSON 404 (ErrorBody ''group not found'')
      | Inr g \<Rightarrow>
     (case Query f GG_Members (group_member_rows db groupID) of
        Inl err \<Rightarrow> JSON 500 (ErrorBody ''failed to get members'')
      | Inr memberRows \<Rightarrow>
     (case scan_group_members (scan_fault f GG_Members) 0 memberRows [] of
        Inl r \<Rightarrow> r
      | Inr members \<Rightarrow>
     (case Query f GG_Expenses (group_expense_rows db groupID) of
        Inl err \<Rightarrow> JSON 500 (ErrorBody ''failed to get expenses'')
      | Inr expenseRows \<Rightarrow>
     (case scan_group_expenses (scan_fault f GG_Expenses) 0 expenseRows [] of
        Inl r \<Rightarrow> r
      | Inr exps \<Rightarrow>
        JSON 200 (DetailsBody
          \<lparr>gd_ID = g_ID g, gd_Name = g_Name g, gd_CreatedBy = g_CreatedBy g,
           gd_CreatedAt = g_CreatedAt g, gd_Members = members, gd_Expenses = exps\<rparr>
          (is_member_loop members userID)))))))))"

section \<open>Predicates and sample databases of the statements\<close>

text \<open>
  The closed form of a member's balance: the totals of the expense rows the user paid,
  less the amounts of the split rows that name the user, less the amounts of the
  settlement rows the user sent, plus the amounts of those the user received.
\<close>

definition net_balance :: "DB \<Rightarrow> uuid \<Rightarrow> uuid \<Rightarrow> decimal" where
  "net_balance db groupID u =
     sum_list (map snd (filter (\<lambda>r. fst r = u) (expense_rows db groupID)))
   - sum_list (map snd (filter (\<lambda>r. fst r = u) (split_rows db groupID)))
   - sum_list (map (\<lambda>r. snd (snd r)) (filter (\<lambda>r. fst r = u) (settlement_rows db groupID)))
   + sum_list (map (\<lambda>r. snd (snd r))
       (filter (\<lambda>r. fst (snd r) = u) (settlement_rows db groupID)))"

text \<open>The same closed form over any three lists of rows.\<close>

definition net_of_rows ::
  "(uuid \<times> decimal) list \<Rightarrow> (uuid \<times> decimal) list \<Rightarrow> (uuid \<times> uuid \<times> decimal) list
   \<Rightarrow> uuid \<Rightarrow> decimal" where
  "net_of_rows expRows splitRows settRows u =
     sum_list (map snd (filter (\<lambda>r. fst r = u) expRows))
   - sum_list (map snd (filter (\<lambda>r. fst r = u) splitRows))
   - sum_list (map (\<lambda>r. snd (snd r)) (filter (\<lambda>r. fst r = u) settRows))
   + sum_list (map (\<lambda>r. snd (snd r)) (filter (\<lambda>r. fst (snd r) = u) settRows))"

text \<open>
  The runs of the balance computation in which no read is cut: each of the four loops
  receives every row its statement selects.
\<close>

definition complete_reads :: "faults \<Rightarrow> bool" where
  "complete_reads f \<longleftrightarrow>
     cut f GB_Members = None \<and> cut f GB_Expenses = None \<and> cut f GB_Splits = None
     \<and> cut f GB_Settlements = None"

text \<open>The sum of the split amounts of one expense, and the groups whose splits add up.\<close>

definition splits_sum :: "DB \<Rightarrow> Expense \<Rightarrow> decimal" where
  "splits_sum db e =
     sum_list (map s_amount (filter (\<lambda>s. s_expense_id s = e_id e) (expense_splits db)))"

definition splits_match_totals :: "DB \<Rightarrow> uuid \<Rightarrow> bool" where
  "splits_match_totals db groupID =
     list_all (\<lambda>e. splits_sum db e = e_total_amount e)
       (filter (\<lambda>e. e_group_id e = groupID) (expenses db))"

definition no_settlements :: "DB \<Rightarrow> uuid \<Rightarrow> bool" where
  "no_settlements db groupID \<longleftrightarrow> settlement_rows db groupID = []"

definition payers_are_members :: "DB \<Rightarrow> uuid \<Rightarrow> bool" where
  "payers_are_members db groupID =
     list_all (\<lambda>r. fst r \<in> set (member_rows db groupID)) (expense_rows db groupID)"

definition split_users_are_members :: "DB \<Rightarrow> uuid \<Rightarrow> bool" where
  "split_users_are_members db groupID =
     list_all (\<lambda>r. fst r \<in> set (member_rows db groupID)) (split_rows db groupID)"

text \<open>
  A group 7 of the users 1 and 2, where 1 paid an expense of 100 split 50 and 50; the
  same group with 1 as its only member, so that the second split names an outsider.
\<close>

definition db_pair :: DB where
  "db_pair =
     \<lparr>groups = [\<lparr>g_ID = 7, g_Name = ''trip'', g_CreatedBy = 1, g_CreatedAt = 0\<rparr>],
      users = [\<lparr>u_id = 1, u_email = ''a@x.org'', u_username = ''a''\<rparr>,
               \<lparr>u_id = 2, u_email = ''b@x.org'', u_username = ''b''\<rparr>],
      group_members = [(7, 1), (7, 2)],
      expenses = [\<lparr>e_id = 20, e_group_id = 7, e_description = ''hotel'',
                   e_total_amount = 100, e_paid_by = 1, e_created_at = 5\<rparr>],
      expense_splits = [\<lparr>s_expense_id = 20, s_user_id = 1, s_amount = 50\<rparr>,
                        \<lparr>s_expense_id = 20, s_user_id = 2, s_amount = 50\<rparr>],
      settlements = []\<rparr>"

definition db_solo :: DB where
  "db_solo = db_pair\<lparr>group_members := [(7, 1)]\<rparr>"

text \<open>A settlement row appended to the table.\<close>

definition append_settlement :: "DB \<Rightarrow> Settlement \<Rightarrow> DB" where
  "append_settlement db t = db\<lparr>settlements := settlements db @ [t]\<rparr>"


text \<open>The users that the rows of a group name, in any role.\<close>

definition named_users :: "DB \<Rightarrow> uuid \<Rightarrow> uuid list" where
  "named_users db groupID =
     map fst (expense_rows db groupID) @ map fst (split_rows db groupID)
     @ map fst (settlement_rows db groupID) @ map (\<lambda>r. fst (snd r)) (settlement_rows db groupID)"

text \<open>
  Group 7 with 1 as its only member and no expenses; a settlement of 10 that the
  outsider 2 sends to 1; a settlement of 50 from 1 to 2; group 7 with a third member
  whom no row names; a settlement of 30 from 1 to 1; and the pair's database with
  two tables in the reverse order.
\<close>

definition db_lone :: DB where
  "db_lone = db_solo\<lparr>expenses := [], expense_splits := []\<rparr>"

definition gift :: Settlement where
  "gift = \<lparr>t_group_id = 7, t_from_user = 2, t_to_user = 1, t_amount = 10\<rparr>"

definition repay :: Settlement where
  "repay = \<lparr>t_group_id = 7, t_from_user = 1, t_to_user = 2, t_amount = 50\<rparr>"

definition db_trio :: DB where
  "db_trio = db_pair\<lparr>group_members := [(7, 1), (7, 2), (7, 3)]\<rparr>"

definition tip :: Settlement where
  "tip = \<lparr>t_group_id = 7, t_from_user = 1, t_to_user = 1, t_amount = 30\<rparr>"

definition db_tip :: DB where
  "db_tip = db_pair\<lparr>settlements := [tip]\<rparr>"

definition db_pair_shuffled :: DB where
  "db_pair_shuffled =
     db_pair\<lparr>group_members := rev (group_members db_pair),
              expense_splits := rev (expense_splits db_pair)\<rparr>"

text \<open>
  The error kinds of the spec's taxonomy, read off the HTTP status of a response.
\<close>

datatype kind = Unauthorized | Forbidden | NotFound | Conflict | ValidationFailed | Internal

definition kind_of :: "response \<Rightarrow> kind option" where
  "kind_of r =
     (if status r = 401 then Some Unauthorized
      else if status r = 403 then Some Forbidden
      else if status r = 404 then Some NotFound
      else if status r = 409 then Some Conflict
      else if status r = 400 then Some ValidationFailed
      else if status r = 500 then Some Internal
      else None)"

text \<open>Every group's creator is among its members.\<close>

definition creators_are_members :: "DB \<Rightarrow> bool" where
  "creators_are_members db =
     list_all (\<lambda>g. (g_ID g, g_CreatedBy g) \<in> set (group_members db)) (groups db)"

text \<open>Every membership row names a group that exists.\<close>

definition members_refer_to_groups :: "DB \<Rightarrow> bool" where
  "members_refer_to_groups db =
     list_all (\<lambda>gm. fst gm \<in> set (map g_ID (groups db))) (group_members db)"

text \<open>
  Sample requests: a read of a group by a user, a request to add the holder of an
  email, and a request to create a group. The persistence layer failing at one site
  only. Another request committing the membership of 2 in group 7.
\<close>

definition reader :: "uuid \<Rightarrow> uuid \<Rightarrow> unit ctx" where
  "reader userID groupID =
     \<lparr>c_user = Some userID, c_param_id = Some groupID, c_bind = Inr (),
      c_validate = (\<lambda>req. None)\<rparr>"

definition adder :: "uuid \<Rightarrow> uuid \<Rightarrow> string \<Rightarrow> AddMemberRequest ctx" where
  "adder userID groupID email =
     \<lparr>c_user = Some userID, c_param_id = Some groupID, c_bind = Inr \<lparr>amr_Email = email\<rparr>,
      c_validate = (\<lambda>req. None)\<rparr>"

definition creator :: "uuid \<Rightarrow> string \<Rightarrow> CreateGroupRequest ctx" where
  "creator userID name =
     \<lparr>c_user = Some userID, c_param_id = None, c_bind = Inr \<lparr>cgr_Name = name\<rparr>,
      c_validate = (\<lambda>req. None)\<rparr>"

definition failing_at :: "site \<Rightarrow> faults" where
  "failing_at s =
     \<lparr>fault = (\<lambda>s'. s' = s), scan_fault = (\<lambda>s' i. False), cut = (\<lambda>s'. None)\<rparr>"

text \<open>
  The read at one site cut after \<open>n\<close> rows, every other call succeeding. The pair's
  database after 2 sent 30 and then 20 to 1.
\<close>

definition cut_at :: "site \<Rightarrow> nat \<Rightarrow> faults" where
  "cut_at s n =
     \<lparr>fault = (\<lambda>s'. False), scan_fault = (\<lambda>s' i. False),
      cut = (\<lambda>s'. if s' = s then Some n else None)\<rparr>"

definition db_two_gifts :: DB where
  "db_two_gifts =
     db_pair\<lparr>settlements :=
       [\<lparr>t_group_id = 7, t_from_user = 2, t_to_user = 1, t_amount = 30\<rparr>,
        \<lparr>t_group_id = 7, t_from_user = 2, t_to_user = 1, t_amount = 20\<rparr>]\<rparr>"

definition other_adds_2 :: "DB \<Rightarrow> DB" where
  "other_adds_2 db = db\<lparr>group_members := group_members db @ [(7, 2)]\<rparr>"

section \<open>Properties of the guarded updates and the row loops\<close>

lemmas row_defs =
  member_rows_def expense_rows_def split_rows_def settlement_rows_def

lemmas sample_defs =
  db_pair_def db_solo_def no_faults_def db_lone_def gift_def repay_def db_trio_def
  tip_def db_tip_def db_pair_shuffled_def append_settlement_def cut_at_def db_two_gifts_def

lemmas run_defs =
  ComputeBalances_def Query_def received_def add_if_member_def sub_if_member_def fun_upd_twist

lemma dom_add_if_member: "dom (add_if_member m u a) = dom m"
  by (auto simp: add_if_member_def split: option.splits)

lemma dom_sub_if_member: "dom (sub_if_member m u a) = dom m"
  by (auto simp: sub_if_member_def split: option.splits)

lemma add_if_member_apply:
  "add_if_member m u a v = (if v = u then map_option (\<lambda>b. b + a) (m v) else m v)"
  by (auto simp: add_if_member_def split: option.splits)

lemma sub_if_member_apply:
  "sub_if_member m u a v = (if v = u then map_option (\<lambda>b. b - a) (m v) else m v)"
  by (auto simp: sub_if_member_def split: option.splits)

lemma total_balance_upd:
  assumes "finite (dom m)" and "m u = Some b"
  shows "total_balance (m(u \<mapsto> c)) = total_balance m - b + c"
proof -
  have d: "dom (m(u \<mapsto> c)) = dom m" using assms by auto
  have u: "u \<in> dom m" using assms by auto
  have "total_balance (m(u \<mapsto> c)) = (\<Sum>v\<in>dom m. the ((m(u \<mapsto> c)) v))"
    by (simp only: total_balance_def d)
  also have "\<dots> = c + (\<Sum>v\<in>dom m - {u}. the ((m(u \<mapsto> c)) v))"
    using assms(1) u by (simp add: sum.remove)
  also have "(\<Sum>v\<in>dom m - {u}. the ((m(u \<mapsto> c)) v)) = (\<Sum>v\<in>dom m - {u}. the (m v))"
    by (rule sum.cong) auto
  also have "\<dots> = total_balance m - b"
    using assms u by (simp add: total_balance_def sum.remove [of "dom m" u])
  finally have "total_balance (m(u \<mapsto> c)) = c + (total_balance m - b)" .
  then show ?thesis by (simp only: add.commute)
qed

lemma total_add_if_member:
  "finite (dom m) \<Longrightarrow>
   total_balance (add_if_member m u a) = total_balance m + (if u \<in> dom m then a else 0)"
  by (auto simp: add_if_member_def total_balance_upd split: option.splits)

lemma total_sub_if_member:
  "finite (dom m) \<Longrightarrow>
   total_balance (sub_if_member m u a) = total_balance m - (if u \<in> dom m then a else 0)"
  by (auto simp: sub_if_member_def total_balance_upd split: option.splits)

lemma scan_members_apply:
  "scan_members sf i rows m = Inr m' \<Longrightarrow> m' u = (if u \<in> set rows then Some 0 else m u)"
  by (induction rows arbitrary: i m) (auto split: if_splits)

lemma scan_expenses_apply:
  "scan_expenses sf i rows m = Inr m' \<Longrightarrow>
   m' u = map_option (\<lambda>b. b + sum_list (map snd (filter (\<lambda>r. fst r = u) rows))) (m u)"
proof (induction rows arbitrary: i m)
  case Nil
  then show ?case by (simp add: option.map_ident)
next
  case (Cons r rows)
  obtain p t where r: "r = (p, t)" by (cases r)
  from Cons.prems r have "scan_expenses sf (Suc i) rows (add_if_member m p t) = Inr m'"
    by (simp split: if_splits)
  from Cons.IH [OF this] show ?case
    by (cases "m u") (auto simp: r add_if_member_apply)
qed

lemma scan_splits_apply:
  "scan_splits sf i rows m = Inr m' \<Longrightarrow>
   m' u = map_option (\<lambda>b. b - sum_list (map snd (filter (\<lambda>r. fst r = u) rows))) (m u)"
proof (induction rows arbitrary: i m)
  case Nil
  then show ?case by (simp add: option.map_ident)
next
  case (Cons r rows)
  obtain p t where r: "r = (p, t)" by (cases r)
  from Cons.prems r have "scan_splits sf (Suc i) rows (sub_if_member m p t) = Inr m'"
    by (simp split: if_splits)
  from Cons.IH [OF this] show ?case
    by (cases "m u") (auto simp: r sub_if_member_apply)
qed

lemma scan_settlements_apply:
  "scan_settlements sf i rows m = Inr m' \<Longrightarrow>
   m' u = map_option (\<lambda>b. b - sum_list (map (\<lambda>r. snd (snd r)) (filter (\<lambda>r. fst r = u) rows))
                          + sum_list (map (\<lambda>r. snd (snd r)) (filter (\<lambda>r. fst (snd r) = u) rows))) (m u)"
proof (induction rows arbitrary: i m)
  case Nil
  then show ?case by (simp add: option.map_ident)
next
  case (Cons r rows)
  obtain x y a where r: "r = (x, y, a)" by (cases r)
  from Cons.prems r
  have "scan_settlements sf (Suc i) rows (add_if_member (sub_if_member m x a) y a) = Inr m'"
    by (simp split: if_splits)
  from Cons.IH [OF this] show ?case
    by (cases "m u") (auto simp: r sub_if_member_apply add_if_member_apply)
qed


lemma scan_members_dom:
  "scan_members sf i rows m = Inr m' \<Longrightarrow> dom m' = dom m \<union> set rows"
  by (auto simp: dom_def scan_members_apply)

lemma scan_expenses_dom: "scan_expenses sf i rows m = Inr m' \<Longrightarrow> dom m' = dom m"
  by (auto simp: dom_def scan_expenses_apply)

lemma scan_splits_dom: "scan_splits sf i rows m = Inr m' \<Longrightarrow> dom m' = dom m"
  by (auto simp: dom_def scan_splits_apply)

lemma scan_settlements_dom: "scan_settlements sf i rows m = Inr m' \<Longrightarrow> dom m' = dom m"
  by (auto simp: dom_def scan_settlements_apply)

lemma scan_members_total:
  assumes "scan_members sf i rows Map.empty = Inr m'"
  shows "total_balance m' = 0"
proof -
  have "\<And>u. u \<in> dom m' \<Longrightarrow> the (m' u) = 0"
    using scan_members_apply [OF assms] by (auto split: if_splits)
  then show ?thesis by (simp add: total_balance_def)
qed

lemma scan_expenses_total:
  "scan_expenses sf i rows m = Inr m' \<Longrightarrow> finite (dom m) \<Longrightarrow>
   total_balance m' = total_balance m + sum_list (map snd (filter (\<lambda>r. fst r \<in> dom m) rows))"
proof (induction rows arbitrary: i m)
  case Nil
  then show ?case by simp
next
  case (Cons r rows)
  obtain p t where r: "r = (p, t)" by (cases r)
  from Cons.prems r have run: "scan_expenses sf (Suc i) rows (add_if_member m p t) = Inr m'"
    by (simp split: if_splits)
  have fin: "finite (dom (add_if_member m p t))"
    using Cons.prems(2) by (simp add: dom_add_if_member)
  from Cons.IH [OF run fin] Cons.prems(2) show ?case
    by (simp add: r dom_add_if_member total_add_if_member)
qed

lemma scan_splits_total:
  "scan_splits sf i rows m = Inr m' \<Longrightarrow> finite (dom m) \<Longrightarrow>
   total_balance m' = total_balance m - sum_list (map snd (filter (\<lambda>r. fst r \<in> dom m) rows))"
proof (induction rows arbitrary: i m)
  case Nil
  then show ?case by simp
next
  case (Cons r rows)
  obtain p t where r: "r = (p, t)" by (cases r)
  from Cons.prems r have run: "scan_splits sf (Suc i) rows (sub_if_member m p t) = Inr m'"
    by (simp split: if_splits)
  have fin: "finite (dom (sub_if_member m p t))"
    using Cons.prems(2) by (simp add: dom_sub_if_member)
  from Cons.IH [OF run fin] Cons.prems(2) show ?case
    by (simp add: r dom_sub_if_member total_sub_if_member)
qed

lemma scan_settlements_total:
  "scan_settlements sf i rows m = Inr m' \<Longrightarrow> finite (dom m) \<Longrightarrow>
   total_balance m' = total_balance m
     - sum_list (map (\<lambda>r. snd (snd r)) (filter (\<lambda>r. fst r \<in> dom m) rows))
     + sum_list (map (\<lambda>r. snd (snd r)) (filter (\<lambda>r. fst (snd r) \<in> dom m) rows))"
proof (induction rows arbitrary: i m)
  case Nil
  then show ?case by simp
next
  case (Cons r rows)
  obtain x y a where r: "r = (x, y, a)" by (cases r)
  let ?m1 = "add_if_member (sub_if_member m x a) y a"
  from Cons.prems r have run: "scan_settlements sf (Suc i) rows ?m1 = Inr m'"
    by (simp split: if_splits)
  have d: "dom ?m1 = dom m" by (simp add: dom_add_if_member dom_sub_if_member)
  have fin: "finite (dom ?m1)" using Cons.prems(2) by (simp add: d)
  have t: "total_balance ?m1 = total_balance m - (if x \<in> dom m then a else 0)
             + (if y \<in> dom m then a else 0)"
    using Cons.prems(2)
    by (simp add: total_add_if_member total_sub_if_member dom_sub_if_member)
  from Cons.IH [OF run fin] show ?case
    by (simp add: r d t)
qed

text \<open>What a successful run of the reads and loops went through.\<close>

lemma ComputeBalances_received:
  assumes "ComputeBalances f db g = Inr m"
  obtains m0 m1 m2 where
    "scan_members (scan_fault f GB_Members) 0
       (received f GB_Members (member_rows db g)) Map.empty = Inr m0"
    "scan_expenses (scan_fault f GB_Expenses) 0
       (received f GB_Expenses (expense_rows db g)) m0 = Inr m1"
    "scan_splits (scan_fault f GB_Splits) 0
       (received f GB_Splits (split_rows db g)) m1 = Inr m2"
    "scan_settlements (scan_fault f GB_Settlements) 0
       (received f GB_Settlements (settlement_rows db g)) m2 = Inr m"
  using assms
  by (auto simp: ComputeBalances_def Query_def split: if_splits sum.splits)

lemma received_complete:
  assumes "complete_reads f"
  shows "received f GB_Members rows0 = rows0" "received f GB_Expenses rows1 = rows1"
    "received f GB_Splits rows2 = rows2" "received f GB_Settlements rows3 = rows3"
  using assms by (simp_all add: complete_reads_def received_def)

lemma complete_reads_no_faults: "complete_reads no_faults"
  by (simp add: complete_reads_def no_faults_def)

lemma ComputeBalances_InrD:
  assumes "complete_reads f" and "ComputeBalances f db g = Inr m"
  obtains m0 m1 m2 where
    "scan_members (scan_fault f GB_Members) 0 (member_rows db g) Map.empty = Inr m0"
    "scan_expenses (scan_fault f GB_Expenses) 0 (expense_rows db g) m0 = Inr m1"
    "scan_splits (scan_fault f GB_Splits) 0 (split_rows db g) m1 = Inr m2"
    "scan_settlements (scan_fault f GB_Settlements) 0 (settlement_rows db g) m2 = Inr m"
  using ComputeBalances_received [OF assms(2)]
  unfolding received_complete [OF assms(1)] by blast

lemma ComputeBalances_dom:
  assumes "complete_reads f" and "ComputeBalances f db g = Inr m"
  shows "dom m = set (member_rows db g)"
proof -
  from assms obtain m0 m1 m2 where
    a: "scan_members (scan_fault f GB_Members) 0 (member_rows db g) Map.empty = Inr m0" and
    b: "scan_expenses (scan_fault f GB_Expenses) 0 (expense_rows db g) m0 = Inr m1" and
    c: "scan_splits (scan_fault f GB_Splits) 0 (split_rows db g) m1 = Inr m2" and
    d: "scan_settlements (scan_fault f GB_Settlements) 0 (settlement_rows db g) m2 = Inr m"
    by (rule ComputeBalances_InrD)
  show ?thesis
    using scan_members_dom [OF a] scan_expenses_dom [OF b] scan_splits_dom [OF c]
      scan_settlements_dom [OF d] by simp
qed

lemma ComputeBalances_total:
  assumes "complete_reads f" and "ComputeBalances f db g = Inr m"
  shows "total_balance m =
     sum_list (map snd (filter (\<lambda>r. fst r \<in> set (member_rows db g)) (expense_rows db g)))
   - sum_list (map snd (filter (\<lambda>r. fst r \<in> set (member_rows db g)) (split_rows db g)))
   - sum_list (map (\<lambda>r. snd (snd r))
       (filter (\<lambda>r. fst r \<in> set (member_rows db g)) (settlement_rows db g)))
   + sum_list (map (\<lambda>r. snd (snd r))
       (filter (\<lambda>r. fst (snd r) \<in> set (member_rows db g)) (settlement_rows db g)))"
proof -
  from assms obtain m0 m1 m2 where
    a: "scan_members (scan_fault f GB_Members) 0 (member_rows db g) Map.empty = Inr m0" and
    b: "scan_expenses (scan_fault f GB_Expenses) 0 (expense_rows db g) m0 = Inr m1" and
    c: "scan_splits (scan_fault f GB_Splits) 0 (split_rows db g) m1 = Inr m2" and
    d: "scan_settlements (scan_fault f GB_Settlements) 0 (settlement_rows db g) m2 = Inr m"
    by (rule ComputeBalances_InrD)
  have d0: "dom m0 = set (member_rows db g)" using scan_members_dom [OF a] by simp
  have d1: "dom m1 = set (member_rows db g)" using scan_expenses_dom [OF b] d0 by simp
  have d2: "dom m2 = set (member_rows db g)" using scan_splits_dom [OF c] d1 by simp
  have t0: "total_balance m0 = 0" by (rule scan_members_total [OF a])
  have t1: "total_balance m1 = total_balance m0
      + sum_list (map snd (filter (\<lambda>r. fst r \<in> dom m0) (expense_rows db g)))"
    by (rule scan_expenses_total [OF b]) (simp add: d0)
  have t2: "total_balance m2 = total_balance m1
      - sum_list (map snd (filter (\<lambda>r. fst r \<in> dom m1) (split_rows db g)))"
    by (rule scan_splits_total [OF c]) (simp add: d1)
  have t3: "total_balance m = total_balance m2
     - sum_list (map (\<lambda>r. snd (snd r)) (filter (\<lambda>r. fst r \<in> dom m2) (settlement_rows db g)))
     + sum_list (map (\<lambda>r. snd (snd r)) (filter (\<lambda>r. fst (snd r) \<in> dom m2) (settlement_rows db g)))"
    by (rule scan_settlements_total [OF d]) (simp add: d2)
  show ?thesis by (simp only: t3 t2 t1 t0 d0 d1 d2 add_0)
qed

lemma join_sum:
  fixes a :: "'s \<Rightarrow> decimal"
  shows
  "sum_list (map snd (concat (map (\<lambda>s. map (\<lambda>e. (k s, a s)) (filter (\<lambda>e. P s e \<and> G e) es)) ss)))
   = sum_list (map (\<lambda>e. sum_list (map a (filter (\<lambda>s. P s e) ss))) (filter G es))"
proof (induction ss)
  case Nil
  then show ?case by simp
next
  case (Cons s ss)
  have one: "sum_list (map snd (map (\<lambda>e. (k s, a s)) (filter (\<lambda>e. P s e \<and> G e) es)))
        = sum_list (map (\<lambda>e. if P s e then a s else 0) (filter G es))"
    by (induction es) auto
  have two: "(\<Sum>e\<leftarrow>filter G es. sum_list (map a (filter (\<lambda>s'. P s' e) (s # ss))))
        = (\<Sum>e\<leftarrow>filter G es. if P s e then a s else 0)
          + (\<Sum>e\<leftarrow>filter G es. sum_list (map a (filter (\<lambda>s'. P s' e) ss)))"
    by (induction es) (auto simp: ac_simps)
  show ?case
    using Cons.IH by (simp only: list.map concat.simps map_append sum_list_append one two)
qed

lemma filter_all_id: "list_all P xs \<Longrightarrow> filter P xs = xs"
  by (induction xs) auto

lemma split_rows_sum:
  "sum_list (map snd (split_rows db g))
   = sum_list (map (splits_sum db) (filter (\<lambda>e. e_group_id e = g) (expenses db)))"
  unfolding split_rows_def splits_sum_def by (rule join_sum)

lemma expense_rows_sum:
  "sum_list (map snd (expense_rows db g))
   = sum_list (map e_total_amount (filter (\<lambda>e. e_group_id e = g) (expenses db)))"
  by (simp add: expense_rows_def comp_def)

lemma matched_sums:
  "list_all (\<lambda>e. F e = (G e :: decimal)) xs \<Longrightarrow> sum_list (map F xs) = sum_list (map G xs)"
  by (induction xs) auto

lemma ComputeBalances_apply:
  assumes "complete_reads f" and "ComputeBalances f db g = Inr m"
  shows "m u = (if u \<in> set (member_rows db g) then Some (net_balance db g u) else None)"
proof -
  from assms obtain m0 m1 m2 where
    a: "scan_members (scan_fault f GB_Members) 0 (member_rows db g) Map.empty = Inr m0" and
    b: "scan_expenses (scan_fault f GB_Expenses) 0 (expense_rows db g) m0 = Inr m1" and
    c: "scan_splits (scan_fault f GB_Splits) 0 (split_rows db g) m1 = Inr m2" and
    d: "scan_settlements (scan_fault f GB_Settlements) 0 (settlement_rows db g) m2 = Inr m"
    by (rule ComputeBalances_InrD)
  show ?thesis
    by (simp add: scan_settlements_apply [OF d] scan_splits_apply [OF c]
        scan_expenses_apply [OF b] scan_members_apply [OF a] net_balance_def)
qed

text \<open>
  The same for any run that returns a map, cut reads included: the keys are the member
  rows received and an entry is the closed form over the rows received.
\<close>

lemma ComputeBalances_apply_received:
  assumes "ComputeBalances f db g = Inr m"
  shows "m u =
     (if u \<in> set (received f GB_Members (member_rows db g))
      then Some (net_of_rows (received f GB_Expenses (expense_rows db g))
                  (received f GB_Splits (split_rows db g))
                  (received f GB_Settlements (settlement_rows db g)) u)
      else None)"
proof -
  from assms obtain m0 m1 m2 where
    a: "scan_members (scan_fault f GB_Members) 0
          (received f GB_Members (member_rows db g)) Map.empty = Inr m0" and
    b: "scan_expenses (scan_fault f GB_Expenses) 0
          (received f GB_Expenses (expense_rows db g)) m0 = Inr m1" and
    c: "scan_splits (scan_fault f GB_Splits) 0
          (received f GB_Splits (split_rows db g)) m1 = Inr m2" and
    d: "scan_settlements (scan_fault f GB_Settlements) 0
          (received f GB_Settlements (settlement_rows db g)) m2 = Inr m"
    by (rule ComputeBalances_received)
  show ?thesis
    by (simp add: scan_settlements_apply [OF d] scan_splits_apply [OF c]
        scan_expenses_apply [OF b] scan_members_apply [OF a] net_of_rows_def)
qed

lemma sum_filter_none:
  "u \<notin> set (map k rows) \<Longrightarrow> sum_list (map (v :: 'r \<Rightarrow> decimal) (filter (\<lambda>r. k r = u) rows)) = 0"
  by (induction rows) auto

lemma net_balance_unnamed:
  assumes "u \<notin> set (named_users db g)"
  shows "net_balance db g u = 0"
proof -
  have 1: "u \<notin> set (map fst (expense_rows db g))" and 2: "u \<notin> set (map fst (split_rows db g))"
    and 3: "u \<notin> set (map fst (settlement_rows db g))"
    and 4: "u \<notin> set (map (\<lambda>r. fst (snd r)) (settlement_rows db g))"
    using assms by (auto simp: named_users_def)
  show ?thesis
    unfolding net_balance_def
    by (simp only: sum_filter_none [OF 1] sum_filter_none [OF 2] sum_filter_none [OF 3]
        sum_filter_none [OF 4] diff_zero add_0_right)
qed

lemma append_settlement_rows:
  "member_rows (append_settlement db t) g = member_rows db g"
  "expense_rows (append_settlement db t) g = expense_rows db g"
  "split_rows (append_settlement db t) g = split_rows db g"
  "t_group_id t = g \<Longrightarrow> settlement_rows (append_settlement db t) g
     = settlement_rows db g @ [(t_from_user t, t_to_user t, t_amount t)]"
  by (simp_all add: append_settlement_def row_defs)

lemma net_balance_append_settlement:
  assumes "t_group_id t = g"
  shows "net_balance (append_settlement db t) g u = net_balance db g u
     - (if t_from_user t = u then t_amount t else 0) + (if t_to_user t = u then t_amount t else 0)"
  by (simp add: net_balance_def append_settlement_rows assms)

lemma self_settlement_step:
  "add_if_member (sub_if_member members x a) x a = members"
  by (rule ext) (auto simp: add_if_member_apply sub_if_member_apply option.map_comp comp_def
        option.map_ident split: option.splits)




lemma balances_slice_map:
  "set order \<subseteq> dom m \<Longrightarrow>
   balances_slice order m = map (\<lambda>u. \<lparr>b_UserID = u, b_Amount = the (m u)\<rparr>) order"
  by (induction order) auto


section \<open>Claims about the balance computation\<close>

text \<open>
  Claim C1, as amended. For a group with no settlement rows in which the splits of
  every expense add up to the expense's total, and in which every payer and every user
  named by a split is a current member, the entries of the map that the balance
  computation returns add up to exactly zero, whenever no read of the computation is
  cut: each loop receives every row its statement selects.
\<close>

theorem zero_sum_when_all_named_are_members:
  assumes full: "complete_reads f"
    and run: "ComputeBalances f db g = Inr m"
    and none: "no_settlements db g"
    and match: "splits_match_totals db g"
    and payers: "payers_are_members db g"
    and users: "split_users_are_members db g"
  shows "total_balance m = 0"
proof -
  have e: "filter (\<lambda>r. fst r \<in> set (member_rows db g)) (expense_rows db g) = expense_rows db g"
    using payers unfolding payers_are_members_def by (rule filter_all_id)
  have s: "filter (\<lambda>r. fst r \<in> set (member_rows db g)) (split_rows db g) = split_rows db g"
    using users unfolding split_users_are_members_def by (rule filter_all_id)
  have t: "settlement_rows db g = []"
    using none by (simp add: no_settlements_def)
  have "total_balance m
      = sum_list (map snd (expense_rows db g)) - sum_list (map snd (split_rows db g))"
    by (simp add: ComputeBalances_total [OF full run] e s t)
  also have "sum_list (map snd (split_rows db g)) = sum_list (map snd (expense_rows db g))"
    using match
    by (simp only: split_rows_sum expense_rows_sum splits_match_totals_def matched_sums)
  finally show ?thesis by simp
qed

text \<open>
  The scenario of the spec: 1 paid 100, split 50 and 50 between the members 1 and 2.
\<close>

theorem zero_sum_witness:
  "complete_reads no_faults
   \<and> ComputeBalances no_faults db_pair 7 = Inr [1 \<mapsto> 50, 2 \<mapsto> - 50]
   \<and> no_settlements db_pair 7 \<and> splits_match_totals db_pair 7
   \<and> payers_are_members db_pair 7 \<and> split_users_are_members db_pair 7
   \<and> total_balance [1 \<mapsto> 50, 2 \<mapsto> - 50] = 0"
proof -
  have run: "ComputeBalances no_faults db_pair 7 = Inr [1 \<mapsto> 50, 2 \<mapsto> - 50]"
    by (simp add: run_defs row_defs sample_defs)
  have none: "no_settlements db_pair 7"
    by (simp add: no_settlements_def row_defs sample_defs)
  have match: "splits_match_totals db_pair 7"
    by (simp add: splits_match_totals_def splits_sum_def sample_defs)
  have payers: "payers_are_members db_pair 7"
    by (simp add: payers_are_members_def row_defs sample_defs)
  have users: "split_users_are_members db_pair 7"
    by (simp add: split_users_are_members_def row_defs sample_defs)
  have full: "complete_reads no_faults" by (rule complete_reads_no_faults)
  have zero: "total_balance [(1::uuid) \<mapsto> (50::decimal), 2 \<mapsto> - 50] = 0"
    by (rule zero_sum_when_all_named_are_members [OF full run none match payers users])
  show ?thesis by (intro conjI; fact)
qed

text \<open>
  Claim C1 as stated fails when a split names a user outside the group: the group has
  no settlements and the splits add up to the total, but the guard skips the
  outsider's share and the balances add up to 50.
\<close>

theorem zero_sum_counterexample:
  "no_settlements db_solo 7 \<and> splits_match_totals db_solo 7
   \<and> ComputeBalances no_faults db_solo 7 = Inr [1 \<mapsto> 50]
   \<and> total_balance [1 \<mapsto> 50] = 50"
proof -
  have none: "no_settlements db_solo 7"
    by (simp add: no_settlements_def row_defs sample_defs)
  have match: "splits_match_totals db_solo 7"
    by (simp add: splits_match_totals_def splits_sum_def sample_defs)
  have run: "ComputeBalances no_faults db_solo 7 = Inr [1 \<mapsto> 50]"
    by (simp add: run_defs row_defs sample_defs)
  have tot: "total_balance [1 \<mapsto> (50::decimal)] = 50"
    by (simp add: total_balance_def)
  show ?thesis using none match run tot by simp
qed

text \<open>
  Claim C2, as amended. When the sender and the receiver of a settlement of the group
  are both current members, appending the settlement leaves the sum of the balances
  unchanged: the new map is the old one with the amount subtracted from the sender's
  entry and then added to the receiver's, so for two different users the sender's
  balance falls by the amount and the receiver's rises by it. This is for runs in
  which no read is cut.
\<close>

theorem settlement_between_members_is_neutral:
  assumes full: "complete_reads f"
    and grp: "t_group_id t = g"
    and before: "ComputeBalances f db g = Inr m"
    and after: "ComputeBalances f (append_settlement db t) g = Inr m'"
    and sender: "t_from_user t \<in> set (member_rows db g)"
    and receiver: "t_to_user t \<in> set (member_rows db g)"
  shows "total_balance m' = total_balance m
    \<and> m' = add_if_member (sub_if_member m (t_from_user t) (t_amount t)) (t_to_user t) (t_amount t)
    \<and> (t_from_user t \<noteq> t_to_user t \<longrightarrow>
         m' (t_from_user t) = Some (the (m (t_from_user t)) - t_amount t)
       \<and> m' (t_to_user t) = Some (the (m (t_to_user t)) + t_amount t))"
proof -
  let ?x = "t_from_user t" and ?y = "t_to_user t" and ?a = "t_amount t"
  have eq: "m' = add_if_member (sub_if_member m ?x ?a) ?y ?a"
  proof
    fix u
    show "m' u = add_if_member (sub_if_member m ?x ?a) ?y ?a u"
      by (simp add: ComputeBalances_apply [OF full after] ComputeBalances_apply [OF full before]
          append_settlement_rows net_balance_append_settlement [OF grp]
          add_if_member_apply sub_if_member_apply)
  qed
  have fin: "finite (dom m)" by (simp add: ComputeBalances_dom [OF full before])
  have dx: "?x \<in> dom m" and dy: "?y \<in> dom m"
    using sender receiver by (simp_all add: ComputeBalances_dom [OF full before])
  have tot: "total_balance m' = total_balance m"
    using fin dx dy
    by (simp add: eq total_add_if_member total_sub_if_member dom_sub_if_member)
  have pt: "?x \<noteq> ?y \<longrightarrow> m' ?x = Some (the (m ?x) - ?a) \<and> m' ?y = Some (the (m ?y) + ?a)"
    using dx dy by (auto simp: eq add_if_member_apply sub_if_member_apply)
  from tot eq pt show ?thesis by simp
qed

text \<open>
  After the expense of the pair, 1 sends 50 to 2: the balances 50 and -50 become 0
  and 0.
\<close>

theorem settlement_between_members_witness:
  "complete_reads no_faults
   \<and> t_group_id repay = 7
   \<and> ComputeBalances no_faults db_pair 7 = Inr [1 \<mapsto> 50, 2 \<mapsto> - 50]
   \<and> ComputeBalances no_faults (append_settlement db_pair repay) 7 = Inr [1 \<mapsto> 0, 2 \<mapsto> 0]
   \<and> t_from_user repay \<in> set (member_rows db_pair 7)
   \<and> t_to_user repay \<in> set (member_rows db_pair 7)
   \<and> total_balance [1 \<mapsto> 0, 2 \<mapsto> 0] = total_balance [1 \<mapsto> 50, 2 \<mapsto> - 50]"
proof -
  have full: "complete_reads no_faults" by (rule complete_reads_no_faults)
  have grp: "t_group_id repay = 7" by (simp add: repay_def)
  have before: "ComputeBalances no_faults db_pair 7 = Inr [1 \<mapsto> 50, 2 \<mapsto> - 50]"
    by (simp add: run_defs row_defs sample_defs)
  have after: "ComputeBalances no_faults (append_settlement db_pair repay) 7 = Inr [1 \<mapsto> 0, 2 \<mapsto> 0]"
    by (simp add: run_defs row_defs sample_defs)
  have sender: "t_from_user repay \<in> set (member_rows db_pair 7)"
    by (simp add: row_defs sample_defs)
  have receiver: "t_to_user repay \<in> set (member_rows db_pair 7)"
    by (simp add: row_defs sample_defs)
  have same: "total_balance [1 \<mapsto> 0, 2 \<mapsto> 0] = total_balance [1 \<mapsto> 50, 2 \<mapsto> - 50]"
    using settlement_between_members_is_neutral [OF full grp before after sender receiver]
    by (rule conjunct1)
  show ?thesis by (intro conjI; fact)
qed

text \<open>
  Claim C2 as stated fails when only one party is a member: the guard skips the
  outsider 2 and credits the member 1, and the sum moves from 0 to 10.
\<close>

theorem settlement_neutrality_counterexample:
  "t_group_id gift = 7
   \<and> ComputeBalances no_faults db_lone 7 = Inr [1 \<mapsto> 0]
   \<and> ComputeBalances no_faults (append_settlement db_lone gift) 7 = Inr [1 \<mapsto> 10]
   \<and> total_balance [1 \<mapsto> 0] = 0 \<and> total_balance [1 \<mapsto> 10] = 10"
proof -
  have grp: "t_group_id gift = 7" by (simp add: gift_def)
  have before: "ComputeBalances no_faults db_lone 7 = Inr [1 \<mapsto> 0]"
    by (simp add: run_defs row_defs sample_defs)
  have after: "ComputeBalances no_faults (append_settlement db_lone gift) 7 = Inr [1 \<mapsto> 10]"
    by (simp add: run_defs row_defs sample_defs)
  have t0: "total_balance [1 \<mapsto> (0::decimal)] = 0" by (simp add: total_balance_def)
  have t1: "total_balance [1 \<mapsto> (10::decimal)] = 10" by (simp add: total_balance_def)
  show ?thesis by (intro conjI; fact)
qed

text \<open>
  Claim C8, as amended. The keys of the returned map are exactly the current members
  of the group, and a member's entry is the closed form \<open>net_balance\<close>: only rows
  that name the member as payer, split user, sender or receiver enter it, so a member
  whom no row names stands at zero. A row never adds a key; an expense or a split that
  names a non-member changes no entry, and a settlement changes the entries of those
  of its two parties who are members. This is for runs in which no read is cut.
\<close>

theorem balance_keys_are_members:
  assumes full: "complete_reads f"
    and run: "ComputeBalances f db g = Inr m"
  shows "dom m = set (member_rows db g)
    \<and> (\<forall>u. m u = (if u \<in> set (member_rows db g) then Some (net_balance db g u) else None))
    \<and> (\<forall>u. u \<in> set (member_rows db g) \<and> u \<notin> set (named_users db g) \<longrightarrow> m u = Some 0)"
  using ComputeBalances_dom [OF full run] ComputeBalances_apply [OF full run]
  by (simp add: net_balance_unnamed)

text \<open>
  Group 7 with the member 3 whom no row names.
\<close>

theorem balance_keys_witness:
  "complete_reads no_faults
   \<and> ComputeBalances no_faults db_trio 7 = Inr [1 \<mapsto> 50, 2 \<mapsto> - 50, 3 \<mapsto> 0]
   \<and> dom [(1::uuid) \<mapsto> (50::decimal), 2 \<mapsto> - 50, 3 \<mapsto> 0] = set (member_rows db_trio 7)
   \<and> 3 \<in> set (member_rows db_trio 7) \<and> 3 \<notin> set (named_users db_trio 7)
   \<and> [(1::uuid) \<mapsto> (50::decimal), 2 \<mapsto> - 50, 3 \<mapsto> 0] 3 = Some 0
   \<and> [(1::uuid) \<mapsto> (50::decimal), 2 \<mapsto> - 50, 3 \<mapsto> 0] 2 = Some (net_balance db_trio 7 2)"
proof -
  have run: "ComputeBalances no_faults db_trio 7 = Inr [1 \<mapsto> 50, 2 \<mapsto> - 50, 3 \<mapsto> 0]"
    by (simp add: run_defs row_defs sample_defs)
  have mem: "3 \<in> set (member_rows db_trio 7)" "2 \<in> set (member_rows db_trio 7)"
    by (simp_all add: row_defs sample_defs)
  have unnamed: "3 \<notin> set (named_users db_trio 7)"
    by (simp add: named_users_def row_defs sample_defs)
  have full: "complete_reads no_faults" by (rule complete_reads_no_faults)
  note inst = balance_keys_are_members [OF full run]
  have keys: "dom [(1::uuid) \<mapsto> (50::decimal), 2 \<mapsto> - 50, 3 \<mapsto> 0] = set (member_rows db_trio 7)"
    using inst by (rule conjunct1)
  have zero: "[(1::uuid) \<mapsto> (50::decimal), 2 \<mapsto> - 50, 3 \<mapsto> 0] 3 = Some 0"
    by (rule inst [THEN conjunct2, THEN conjunct2, rule_format, of 3, OF conjI [OF mem(1) unnamed]])
  have net: "[(1::uuid) \<mapsto> (50::decimal), 2 \<mapsto> - 50, 3 \<mapsto> 0] 2 = Some (net_balance db_trio 7 2)"
    using inst [THEN conjunct2, THEN conjunct1, rule_format, of 2] by (simp only: mem(2) if_True)
  show ?thesis by (intro conjI; fact)
qed

text \<open>
  Claim C8 as stated fails for a settlement with one party outside the group: the
  settlement names the non-member 2 and still moves the balance of 1 from 0 to 10.
\<close>

theorem balance_untouched_counterexample:
  "t_group_id gift = 7
   \<and> t_from_user gift \<notin> set (member_rows db_lone 7)
   \<and> ComputeBalances no_faults db_lone 7 = Inr [1 \<mapsto> 0]
   \<and> ComputeBalances no_faults (append_settlement db_lone gift) 7 = Inr [1 \<mapsto> 10]
   \<and> [(1::uuid) \<mapsto> (0::decimal)] \<noteq> [1 \<mapsto> 10]"
proof -
  have grp: "t_group_id gift = 7" by (simp add: gift_def)
  have out: "t_from_user gift \<notin> set (member_rows db_lone 7)"
    by (simp add: row_defs sample_defs)
  have before: "ComputeBalances no_faults db_lone 7 = Inr [1 \<mapsto> 0]"
    by (simp add: run_defs row_defs sample_defs)
  have after: "ComputeBalances no_faults (append_settlement db_lone gift) 7 = Inr [1 \<mapsto> 10]"
    by (simp add: run_defs row_defs sample_defs)
  have ne: "[(1::uuid) \<mapsto> (0::decimal)] \<noteq> [1 \<mapsto> 10]"
  proof
    assume "[(1::uuid) \<mapsto> (0::decimal)] = [1 \<mapsto> 10]"
    then have "[(1::uuid) \<mapsto> (0::decimal)] 1 = [(1::uuid) \<mapsto> 10] 1" by simp
    then show False by simp
  qed
  show ?thesis by (intro conjI; fact)
qed




text \<open>
  Claim C10. A settlement whose sender is its receiver changes nothing. The step
  subtracts the amount and adds it back to the value just stored, whatever the map.
  So the settlements loop, given its rows with such a settlement among them at any
  position, ends with the map it ends with given the rows without it. And for runs
  in which no read is cut, the map computed with the settlement in the table, at any
  position, is the map computed without it.
\<close>

theorem self_settlement_is_identity:
  assumes self: "t_from_user t = t_to_user t"
  shows "add_if_member (sub_if_member m0 (t_from_user t) (t_amount t)) (t_to_user t) (t_amount t) = m0
    \<and> (scan_settlements sf i (rs1 @ (t_from_user t, t_to_user t, t_amount t) # rs2) m0 = Inr m1
       \<and> scan_settlements sf' i' (rs1 @ rs2) m0 = Inr m2 \<longrightarrow> m1 = m2)
    \<and> (settlements db = xs @ t # ys \<and> complete_reads f \<and> complete_reads f'
       \<and> ComputeBalances f db g = Inr m'
       \<and> ComputeBalances f' (db\<lparr>settlements := xs @ ys\<rparr>) g = Inr m \<longrightarrow> m' = m)"
proof -
  have step: "add_if_member (sub_if_member m0 (t_from_user t) (t_amount t)) (t_to_user t)
      (t_amount t) = m0"
    by (simp add: self self_settlement_step)
  have loop: "m1 = m2"
    if l1: "scan_settlements sf i (rs1 @ (t_from_user t, t_to_user t, t_amount t) # rs2) m0 = Inr m1"
      and l2: "scan_settlements sf' i' (rs1 @ rs2) m0 = Inr m2"
  proof
    fix u
    show "m1 u = m2 u"
      using self
      by (cases "m0 u")
        (simp_all add: scan_settlements_apply [OF l1] scan_settlements_apply [OF l2])
  qed
  have run: "m' = m"
    if rows: "settlements db = xs @ t # ys" and full: "complete_reads f"
      and full': "complete_reads f'" and with_t: "ComputeBalances f db g = Inr m'"
      and without: "ComputeBalances f' (db\<lparr>settlements := xs @ ys\<rparr>) g = Inr m"
  proof -
    let ?db = "db\<lparr>settlements := xs @ ys\<rparr>"
    have r: "member_rows ?db g = member_rows db g" "expense_rows ?db g = expense_rows db g"
      "split_rows ?db g = split_rows db g"
      by (simp_all add: row_defs)
    have n: "net_balance ?db g u = net_balance db g u" for u
      using self by (simp add: net_balance_def r) (simp add: settlement_rows_def rows)
    have "m' u = m u" for u
      by (simp add: ComputeBalances_apply [OF full with_t]
          ComputeBalances_apply [OF full' without] r n)
    then show "m' = m" by (rule ext)
  qed
  from step loop run show ?thesis by blast
qed

text \<open>
  The member 1 of the pair sends 30 to themself.
\<close>

theorem self_settlement_witness:
  "t_from_user tip = t_to_user tip
   \<and> settlements db_tip = [] @ tip # []
   \<and> complete_reads no_faults
   \<and> ComputeBalances no_faults db_tip 7 = Inr [1 \<mapsto> 50, 2 \<mapsto> - 50]
   \<and> ComputeBalances no_faults (db_tip\<lparr>settlements := [] @ []\<rparr>) 7 = Inr [1 \<mapsto> 50, 2 \<mapsto> - 50]
   \<and> add_if_member (sub_if_member [(1::uuid) \<mapsto> 50, 2 \<mapsto> - 50] (t_from_user tip) (t_amount tip))
         (t_to_user tip) (t_amount tip) = [1 \<mapsto> 50, 2 \<mapsto> - 50]
   \<and> scan_settlements (\<lambda>i. False) 0
         [(2, 1, 20), (t_from_user tip, t_to_user tip, t_amount tip)] [1 \<mapsto> 50, 2 \<mapsto> - 50]
       = Inr [1 \<mapsto> 70, 2 \<mapsto> - 70]"
proof -
  have self: "t_from_user tip = t_to_user tip" by (simp add: tip_def)
  have rows: "settlements db_tip = [] @ tip # []" by (simp add: db_tip_def)
  have full: "complete_reads no_faults" by (rule complete_reads_no_faults)
  have with_t: "ComputeBalances no_faults db_tip 7 = Inr [1 \<mapsto> 50, 2 \<mapsto> - 50]"
    by (simp add: run_defs row_defs sample_defs)
  have without:
    "ComputeBalances no_faults (db_tip\<lparr>settlements := [] @ []\<rparr>) 7 = Inr [1 \<mapsto> 50, 2 \<mapsto> - 50]"
    by (simp add: run_defs row_defs sample_defs)
  note inst = self_settlement_is_identity [OF self]
  have step: "add_if_member (sub_if_member [(1::uuid) \<mapsto> 50, 2 \<mapsto> - 50] (t_from_user tip) (t_amount tip))
         (t_to_user tip) (t_amount tip) = [1 \<mapsto> 50, 2 \<mapsto> - 50]"
    by (rule inst [THEN conjunct1])
  have short: "scan_settlements (\<lambda>i. False) 0 ([(2, 1, 20)] @ []) [(1::uuid) \<mapsto> (50::decimal), 2 \<mapsto> - 50]
       = Inr [1 \<mapsto> 70, 2 \<mapsto> - 70]"
    by (simp add: add_if_member_def sub_if_member_def fun_upd_twist)
  obtain m1 where long: "scan_settlements (\<lambda>i. False) 0
         ([(2, 1, 20)] @ (t_from_user tip, t_to_user tip, t_amount tip) # [])
         [(1::uuid) \<mapsto> (50::decimal), 2 \<mapsto> - 50] = Inr m1"
    by (simp add: add_if_member_def sub_if_member_def tip_def)
  have "m1 = [1 \<mapsto> 70, 2 \<mapsto> - 70]"
    using inst [THEN conjunct2, THEN conjunct1] long short by blast
  with long have loop: "scan_settlements (\<lambda>i. False) 0
         [(2, 1, 20), (t_from_user tip, t_to_user tip, t_amount tip)] [1 \<mapsto> 50, 2 \<mapsto> - 50]
       = Inr [1 \<mapsto> 70, 2 \<mapsto> - 70]"
    by simp
  show ?thesis by (intro conjI; fact)
qed

section \<open>Properties of the handlers\<close>

lemmas tx_defs = insert_group_def insert_group_member_def Begin_def Rollback_def Commit_def

lemma CreateGroup_cases:
  "(\<exists>r. CreateGroup f new_id now c db = (r, db) \<and> status r \<noteq> 201)
   \<or> (\<exists>userID req. c_user c = Some userID \<and> c_bind c = Inr req
        \<and> \<not> fault f CG_Begin \<and> \<not> fault f CG_InsertGroup \<and> \<not> fault f CG_InsertMember
        \<and> \<not> fault f CG_Commit
        \<and> CreateGroup f new_id now c db =
            (JSON 201 (GroupBody \<lparr>g_ID = new_id, g_Name = cgr_Name req, g_CreatedBy = userID,
                                  g_CreatedAt = now\<rparr>),
             db\<lparr>groups := groups db @ [\<lparr>g_ID = new_id, g_Name = cgr_Name req,
                                         g_CreatedBy = userID, g_CreatedAt = now\<rparr>],
                group_members := group_members db @ [(new_id, userID)]\<rparr>))"
  by (auto simp: CreateGroup_def tx_defs split: option.splits sum.splits if_splits)

lemma ComputeBalances_Inl_status:
  "ComputeBalances f db g = Inl r \<Longrightarrow> status r = 500"
proof -
  have a: "scan_members sf i rows m = Inl r \<Longrightarrow> status r = 500" for sf i rows m
    by (induction rows arbitrary: i m) (auto split: if_splits)
  have b: "scan_expenses sf i rows m = Inl r \<Longrightarrow> status r = 500" for sf i rows m
    by (induction sf i rows m rule: scan_expenses.induct) (auto split: if_splits)
  have c: "scan_splits sf i rows m = Inl r \<Longrightarrow> status r = 500" for sf i rows m
    by (induction sf i rows m rule: scan_splits.induct) (auto split: if_splits)
  have d: "scan_settlements sf i rows m = Inl r \<Longrightarrow> status r = 500" for sf i rows m
    by (induction sf i rows m rule: scan_settlements.induct) (auto split: if_splits)
  assume "ComputeBalances f db g = Inl r"
  then show ?thesis
    by (auto simp: ComputeBalances_def Query_def split: if_splits sum.splits dest: a b c d)
qed

lemma GetBalances_non_member:
  assumes "c_user c = Some userID" "c_param_id c = Some groupID"
    "(groupID, userID) \<notin> set (group_members db)"
  shows "GetBalances f order c db = JSON 403 (ErrorBody ''not a member of the group'')"
  using assms by (simp add: GetBalances_def IsGroupMember_def QueryRow_def)

lemma GetBalances_status:
  "status (GetBalances f order c db) \<in> {401, 400, 403, 500, 200}"
  by (auto simp: GetBalances_def split: option.splits prod.splits sum.splits
      dest: ComputeBalances_Inl_status)

text \<open>
  Without faults the reads and loops run to their end; a 200 response of
  \<open>GetBalances\<close> carries the slice of the computed map, whose amounts add up to the
  sum of the map's entries.
\<close>

lemma scan_members_runs: "(\<And>i. \<not> sf i) \<Longrightarrow> \<exists>m'. scan_members sf i rows m = Inr m'"
  by (induction rows arbitrary: i m) auto

lemma scan_expenses_runs: "(\<And>i. \<not> sf i) \<Longrightarrow> \<exists>m'. scan_expenses sf i rows m = Inr m'"
  by (induction sf i rows m rule: scan_expenses.induct) auto

lemma scan_splits_runs: "(\<And>i. \<not> sf i) \<Longrightarrow> \<exists>m'. scan_splits sf i rows m = Inr m'"
  by (induction sf i rows m rule: scan_splits.induct) auto

lemma scan_settlements_runs:
  "(\<And>i. \<not> sf i) \<Longrightarrow> \<exists>m'. scan_settlements sf i rows m = Inr m'"
  by (induction sf i rows m rule: scan_settlements.induct) auto

lemma ComputeBalances_runs: "\<exists>m. ComputeBalances no_faults db g = Inr m"
proof -
  have nf: "\<not> scan_fault no_faults s i" for s i by (simp add: no_faults_def)
  obtain m0 where a: "scan_members (scan_fault no_faults GB_Members) 0 (member_rows db g) Map.empty = Inr m0"
    using scan_members_runs [of "scan_fault no_faults GB_Members"] nf by blast
  obtain m1 where b: "scan_expenses (scan_fault no_faults GB_Expenses) 0 (expense_rows db g) m0 = Inr m1"
    using scan_expenses_runs [of "scan_fault no_faults GB_Expenses"] nf by blast
  obtain m2 where c: "scan_splits (scan_fault no_faults GB_Splits) 0 (split_rows db g) m1 = Inr m2"
    using scan_splits_runs [of "scan_fault no_faults GB_Splits"] nf by blast
  obtain m3 where d: "scan_settlements (scan_fault no_faults GB_Settlements) 0 (settlement_rows db g) m2 = Inr m3"
    using scan_settlements_runs [of "scan_fault no_faults GB_Settlements"] nf by blast
  have whole: "received no_faults s rows = rows" for s and rows :: "'r list"
    by (simp add: received_def no_faults_def)
  have quiet: "\<not> fault no_faults s" for s by (simp add: no_faults_def)
  have "ComputeBalances no_faults db g = Inr m3"
    by (simp add: ComputeBalances_def Query_def whole quiet a b c d)
  then show ?thesis by blast
qed

lemma GetBalances_200D:
  assumes "GetBalances f order c db = JSON 200 (BalancesBody bs)"
  shows "\<exists>userID groupID m. c_user c = Some userID \<and> c_param_id c = Some groupID
     \<and> (groupID, userID) \<in> set (group_members db)
     \<and> ComputeBalances f db groupID = Inr m \<and> bs = balances_slice order m"
  using assms
  by (auto simp: GetBalances_def IsGroupMember_def QueryRow_def
      split: option.splits sum.splits if_splits dest: ComputeBalances_Inl_status)

lemma GetBalances_member:
  assumes "c_user c = Some userID" "c_param_id c = Some groupID"
    "(groupID, userID) \<in> set (group_members db)" "\<not> fault f GB_IsMember"
    "ComputeBalances f db groupID = Inr m"
  shows "GetBalances f order c db = JSON 200 (BalancesBody (balances_slice order m))"
  using assms by (simp add: GetBalances_def IsGroupMember_def QueryRow_def)

lemma balances_slice_sum:
  assumes "range_order order m"
  shows "sum_list (map b_Amount (balances_slice order m)) = total_balance m"
proof -
  from assms have d: "distinct order" and s: "set order = dom m"
    by (simp_all add: range_order_def)
  have "sum_list (map b_Amount (balances_slice order m)) = sum_list (map (\<lambda>u. the (m u)) order)"
    using s by (simp add: balances_slice_map comp_def)
  also have "\<dots> = (\<Sum>u\<in>set order. the (m u))"
    using d by (rule sum_list_distinct_conv_sum_set)
  finally show ?thesis by (simp add: total_balance_def s)
qed

lemma scan_group_members_ok:
  "(\<And>i. \<not> sf i) \<Longrightarrow> scan_group_members sf i rows acc = Inr (acc @ rows)"
  by (induction rows arbitrary: i acc) auto

lemma scan_group_expenses_ok:
  "(\<And>i. \<not> sf i) \<Longrightarrow> scan_group_expenses sf i rows acc = Inr (acc @ rows)"
  by (induction rows arbitrary: i acc) auto

lemma scan_group_members_Inl:
  "scan_group_members sf i rows acc = Inl r \<Longrightarrow> status r = 500"
  by (induction rows arbitrary: i acc) (auto split: if_splits)

lemma scan_group_expenses_Inl:
  "scan_group_expenses sf i rows acc = Inl r \<Longrightarrow> status r = 500"
  by (induction rows arbitrary: i acc) (auto split: if_splits)

lemma is_member_loop_iff:
  "is_member_loop members userID \<longleftrightarrow> userID \<in> set (map gm_UserID members)"
  by (induction members) auto

lemma group_member_rows_ids:
  "m \<in> set (group_member_rows db g) \<Longrightarrow> (g, gm_UserID m) \<in> set (group_members db)"
  by (auto simp: group_member_rows_def)

lemma GetGroup_status:
  "status (GetGroup f c db) \<in> {401, 400, 404, 500, 200}"
  by (auto simp: GetGroup_def Query_def split: option.splits sum.splits if_splits
      dest: scan_group_members_Inl scan_group_expenses_Inl)

lemma GetGroup_no_faults:
  assumes "c_user c = Some userID" "c_param_id c = Some groupID"
    "group_rows db groupID = g # rest"
  shows "GetGroup no_faults c db =
     JSON 200 (DetailsBody
       \<lparr>gd_ID = g_ID g, gd_Name = g_Name g, gd_CreatedBy = g_CreatedBy g,
        gd_CreatedAt = g_CreatedAt g, gd_Members = group_member_rows db groupID,
        gd_Expenses = group_expense_rows db groupID\<rparr>
       (is_member_loop (group_member_rows db groupID) userID))"
  using assms
  by (simp add: GetGroup_def QueryRow_def Query_def received_def no_faults_def
      scan_group_members_ok scan_group_expenses_ok)

lemmas request_defs = reader_def adder_def creator_def failing_at_def other_adds_2_def

lemmas AddMember_defs =
  AddMember_def QueryRow_def GetUserByEmail_def IsGroupMember_def insert_group_member_def
  user_id_rows_def

lemma GetUserByEmail_never_errs: "snd (snd (GetUserByEmail failing db email)) = None"
  by (simp add: GetUserByEmail_def split: sum.splits)

section \<open>Reads that are cut\<close>

text \<open>
  What the handlers answer when a result set ends early and only \<open>rows.Err()\<close>
  holds the failure: status 200, computed from the rows received. On the pair's
  database, with the expenses read cut before its first row the payer is not credited
  and the balances are -50 and -50; with the members read cut before its first row the
  map has no key; and the group-detail read with its members read cut tells the
  member 1 that they are no member.
\<close>

lemma cut_expenses_read:
  "GetBalances (cut_at GB_Expenses 0) [1, 2] (reader 1 7) db_pair
     = JSON 200 (BalancesBody [\<lparr>b_UserID = 1, b_Amount = - 50\<rparr>,
                               \<lparr>b_UserID = 2, b_Amount = - 50\<rparr>])"
  by (simp add: GetBalances_def IsGroupMember_def QueryRow_def run_defs row_defs sample_defs
      reader_def)

lemma cut_members_read:
  "ComputeBalances (cut_at GB_Members 0) db_pair 7 = Inr Map.empty"
  by (simp add: run_defs row_defs sample_defs)

lemma cut_group_members_read:
  "GetGroup (cut_at GG_Members 0) (reader 1 7) db_pair =
     JSON 200 (DetailsBody
       \<lparr>gd_ID = 7, gd_Name = ''trip'', gd_CreatedBy = 1, gd_CreatedAt = 0,
        gd_Members = [],
        gd_Expenses = [\<lparr>ge_ID = 20, ge_Description = ''hotel'', ge_TotalAmount = 100,
                        ge_PaidBy = 1, ge_CreatedAt = 5\<rparr>]\<rparr>
       False)"
  by (simp add: GetGroup_def QueryRow_def Query_def received_def group_rows_def
      group_member_rows_def group_expense_rows_def sample_defs reader_def)

section \<open>Claims about the handlers\<close>

text \<open>
  Claim C3. \<open>CreateGroup\<close> is all or nothing. Whenever it answers anything but
  201, the committed state is the one it found: a failed insert of the group, a failed
  insert of the creator's membership and a failed commit all leave no row behind.
  When it answers 201, the group row and the creator's membership row were committed
  together. So a state in which every group's creator is a member stays one.
\<close>

theorem CreateGroup_all_or_nothing:
  "(status (fst (CreateGroup f new_id now c db)) \<noteq> 201 \<longrightarrow>
      snd (CreateGroup f new_id now c db) = db)
   \<and> (status (fst (CreateGroup f new_id now c db)) = 201 \<longrightarrow>
      (\<exists>userID req. c_user c = Some userID \<and> c_bind c = Inr req \<and>
         snd (CreateGroup f new_id now c db) =
           db\<lparr>groups := groups db @ [\<lparr>g_ID = new_id, g_Name = cgr_Name req,
                                       g_CreatedBy = userID, g_CreatedAt = now\<rparr>],
              group_members := group_members db @ [(new_id, userID)]\<rparr>))
   \<and> (fault f CG_InsertGroup \<or> fault f CG_InsertMember \<or> fault f CG_Commit \<longrightarrow>
      status (fst (CreateGroup f new_id now c db)) \<noteq> 201)
   \<and> (creators_are_members db \<longrightarrow> creators_are_members (snd (CreateGroup f new_id now c db)))"
  using CreateGroup_cases [of f new_id now c db]
  by (auto simp: creators_are_members_def list_all_iff)

text \<open>
  The membership insert is made to fail: the response is 500 and the group row is not
  there. Without faults the group is created and the creator is its member.
\<close>

theorem CreateGroup_witness:
  "fault (failing_at CG_InsertMember) CG_InsertMember
   \<and> CreateGroup (failing_at CG_InsertMember) 9 100 (creator 1 ''flat'') db_pair
       = (JSON 500 (ErrorBody ''failed to add creator as member''), db_pair)
   \<and> snd (CreateGroup (failing_at CG_InsertMember) 9 100 (creator 1 ''flat'') db_pair) = db_pair
   \<and> fst (CreateGroup no_faults 9 100 (creator 1 ''flat'') db_pair)
       = JSON 201 (GroupBody \<lparr>g_ID = 9, g_Name = ''flat'', g_CreatedBy = 1, g_CreatedAt = 100\<rparr>)
   \<and> creators_are_members db_pair
   \<and> creators_are_members (snd (CreateGroup no_faults 9 100 (creator 1 ''flat'') db_pair))"
proof -
  have flt: "fault (failing_at CG_InsertMember) CG_InsertMember"
    by (simp add: failing_at_def)
  have fails: "CreateGroup (failing_at CG_InsertMember) 9 100 (creator 1 ''flat'') db_pair
       = (JSON 500 (ErrorBody ''failed to add creator as member''), db_pair)"
    by (simp add: CreateGroup_def creator_def failing_at_def tx_defs db_pair_def)
  have st: "status (fst (CreateGroup (failing_at CG_InsertMember) 9 100 (creator 1 ''flat'') db_pair))
       \<noteq> 201"
    by (simp add: fails)
  have nothing: "snd (CreateGroup (failing_at CG_InsertMember) 9 100 (creator 1 ''flat'') db_pair)
       = db_pair"
    using CreateGroup_all_or_nothing [of "failing_at CG_InsertMember" 9 100 "creator 1 ''flat''" db_pair]
      st by blast
  have ok: "fst (CreateGroup no_faults 9 100 (creator 1 ''flat'') db_pair)
       = JSON 201 (GroupBody \<lparr>g_ID = 9, g_Name = ''flat'', g_CreatedBy = 1, g_CreatedAt = 100\<rparr>)"
    by (simp add: CreateGroup_def creator_def no_faults_def tx_defs db_pair_def)
  have inv: "creators_are_members db_pair"
    by (simp add: creators_are_members_def db_pair_def)
  have inv': "creators_are_members (snd (CreateGroup no_faults 9 100 (creator 1 ''flat'') db_pair))"
    using CreateGroup_all_or_nothing [of no_faults 9 100 "creator 1 ''flat''" db_pair] inv
    by blast
  show ?thesis by (intro conjI; fact)
qed

text \<open>
  Claim C4, as amended. For a caller who is not a member of the group, the balance
  read answers 403 before any balance is read, whatever else fails. The group-detail
  read has no membership gate: it never answers 403, and when the group exists and no
  read fails it returns the group's members and expenses to the non-member, with
  \<open>is_member\<close> false.
\<close>

theorem non_member_reads:
  assumes user: "c_user c = Some userID"
    and param: "c_param_id c = Some groupID"
    and outsider: "(groupID, userID) \<notin> set (group_members db)"
  shows "GetBalances f order c db = JSON 403 (ErrorBody ''not a member of the group'')
    \<and> status (GetGroup f c db) \<noteq> 403
    \<and> (\<forall>g rest. group_rows db groupID = g # rest \<longrightarrow>
          GetGroup no_faults c db =
            JSON 200 (DetailsBody
              \<lparr>gd_ID = g_ID g, gd_Name = g_Name g, gd_CreatedBy = g_CreatedBy g,
               gd_CreatedAt = g_CreatedAt g, gd_Members = group_member_rows db groupID,
               gd_Expenses = group_expense_rows db groupID\<rparr>
              False))"
proof -
  have a: "GetBalances f order c db = JSON 403 (ErrorBody ''not a member of the group'')"
    by (rule GetBalances_non_member [OF user param outsider])
  have b: "status (GetGroup f c db) \<noteq> 403"
    using GetGroup_status [of f c db] by auto
  have "\<not> is_member_loop (group_member_rows db groupID) userID"
    using outsider by (auto simp: is_member_loop_iff dest: group_member_rows_ids)
  then have c: "group_rows db groupID = g # rest \<Longrightarrow>
          GetGroup no_faults c db =
            JSON 200 (DetailsBody
              \<lparr>gd_ID = g_ID g, gd_Name = g_Name g, gd_CreatedBy = g_CreatedBy g,
               gd_CreatedAt = g_CreatedAt g, gd_Members = group_member_rows db groupID,
               gd_Expenses = group_expense_rows db groupID\<rparr>
              False)" for g rest
    using GetGroup_no_faults [OF user param, of db g rest] by simp
  from a b c show ?thesis by blast
qed

text \<open>
  User 2 is not a member of group 7.
\<close>

theorem non_member_reads_witness:
  "c_user (reader 2 7) = Some 2 \<and> c_param_id (reader 2 7) = Some 7
   \<and> (7, 2) \<notin> set (group_members db_solo)
   \<and> GetBalances no_faults [1] (reader 2 7) db_solo
       = JSON 403 (ErrorBody ''not a member of the group'')
   \<and> status (GetGroup no_faults (reader 2 7) db_solo) \<noteq> 403"
proof -
  have user: "c_user (reader 2 7) = Some 2" by (simp add: reader_def)
  have param: "c_param_id (reader 2 7) = Some 7" by (simp add: reader_def)
  have outsider: "(7, 2) \<notin> set (group_members db_solo)" by (simp add: sample_defs)
  note inst = non_member_reads [OF user param outsider, where f = no_faults and order = "[1]"]
  have gate: "GetBalances no_faults [1] (reader 2 7) db_solo
       = JSON 403 (ErrorBody ''not a member of the group'')"
    using inst by (rule conjunct1)
  have open_read: "status (GetGroup no_faults (reader 2 7) db_solo) \<noteq> 403"
    using inst by (rule conjunct2 [THEN conjunct1])
  show ?thesis by (intro conjI; fact)
qed

text \<open>
  Claim C4 as stated fails for the group-detail read: user 2, not a member of group
  7, receives its member list and its expenses with status 200.
\<close>

theorem non_member_reads_counterexample:
  "(7, 2) \<notin> set (group_members db_solo)
   \<and> GetGroup no_faults (reader 2 7) db_solo =
       JSON 200 (DetailsBody
         \<lparr>gd_ID = 7, gd_Name = ''trip'', gd_CreatedBy = 1, gd_CreatedAt = 0,
          gd_Members = [\<lparr>gm_UserID = 1, gm_Email = ''a@x.org'', gm_Username = ''a''\<rparr>],
          gd_Expenses = [\<lparr>ge_ID = 20, ge_Description = ''hotel'', ge_TotalAmount = 100,
                          ge_PaidBy = 1, ge_CreatedAt = 5\<rparr>]\<rparr>
         False)"
  by (simp add: GetGroup_def QueryRow_def Query_def received_def group_rows_def group_member_rows_def
      group_expense_rows_def sample_defs request_defs)

text \<open>
  Claim C5, as amended. For a group identifier that names no existing group, in a
  database whose membership rows all name existing groups, the balance read answers
  403, the kind Forbidden: the membership gate is its only check of the group. No
  call of the balance read answers 404.
\<close>

theorem balances_of_missing_group:
  assumes user: "c_user c = Some userID"
    and param: "c_param_id c = Some groupID"
    and missing: "groupID \<notin> set (map g_ID (groups db))"
    and integrity: "members_refer_to_groups db"
  shows "GetBalances f order c db = JSON 403 (ErrorBody ''not a member of the group'')
    \<and> kind_of (GetBalances f order c db) = Some Forbidden
    \<and> status (GetBalances f' order' c' db') \<noteq> 404"
proof -
  have "(groupID, userID) \<notin> set (group_members db)"
    using missing integrity by (auto simp: members_refer_to_groups_def list_all_iff)
  then have a: "GetBalances f order c db = JSON 403 (ErrorBody ''not a member of the group'')"
    by (rule GetBalances_non_member [OF user param])
  have b: "status (GetBalances f' order' c' db') \<noteq> 404"
    using GetBalances_status [of f' order' c' db'] by auto
  from a b show ?thesis by (simp add: kind_of_def)
qed

text \<open>
  There is no group 8.
\<close>

theorem balances_of_missing_group_witness:
  "c_user (reader 1 8) = Some 1 \<and> c_param_id (reader 1 8) = Some 8
   \<and> 8 \<notin> set (map g_ID (groups db_pair)) \<and> members_refer_to_groups db_pair
   \<and> kind_of (GetBalances no_faults [] (reader 1 8) db_pair) = Some Forbidden"
proof -
  have user: "c_user (reader 1 8) = Some 1" by (simp add: reader_def)
  have param: "c_param_id (reader 1 8) = Some 8" by (simp add: reader_def)
  have missing: "8 \<notin> set (map g_ID (groups db_pair))" by (simp add: sample_defs)
  have integrity: "members_refer_to_groups db_pair"
    by (simp add: members_refer_to_groups_def sample_defs)
  have forbidden: "kind_of (GetBalances no_faults [] (reader 1 8) db_pair) = Some Forbidden"
    using balances_of_missing_group [OF user param missing integrity, where f = no_faults and order = "[]"]
    by (rule conjunct2 [THEN conjunct1])
  show ?thesis by (intro conjI; fact)
qed

text \<open>
  Claim C5 as stated fails: for the missing group 8 the balance read answers 403,
  Forbidden, not NotFound.
\<close>

theorem balances_of_missing_group_counterexample:
  "8 \<notin> set (map g_ID (groups db_pair))
   \<and> GetBalances no_faults [] (reader 1 8) db_pair
       = JSON 403 (ErrorBody ''not a member of the group'')
   \<and> kind_of (JSON 403 (ErrorBody ''not a member of the group'')) = Some Forbidden"
  by (simp add: GetBalances_def IsGroupMember_def QueryRow_def kind_of_def
      sample_defs request_defs)

text \<open>
  Claim C6, as amended. \<open>AddMember\<close> checks in this order. A requester who is not a
  member, or whose membership cannot be read, gets 403, whatever the body holds. Then, for a bound and valid body whose
  email lookup does not fail: an email that no user holds gets 404; a target who is
  already a member gets 400 with the text "user already in group"; and when the final
  insert fails, by a fault or because the membership row is there by then (another
  request committed it after the check), the response is 500 with the text "failed to
  add member" and no row is added. Otherwise the row is added and the response is
  200.
\<close>

theorem AddMember_checks_in_order:
  assumes user: "c_user c = Some requesterID" and param: "c_param_id c = Some groupID"
  shows
   "((groupID, requesterID) \<notin> set (group_members db) \<or> fault f AM_IsMember \<longrightarrow>
       AddMember f racing c db = (JSON 403 (ErrorBody ''not a member of the group''), db))
    \<and> ((groupID, requesterID) \<in> set (group_members db) \<and> \<not> fault f AM_IsMember
        \<and> c_bind c = Inr req \<and> c_validate c req = None \<and> \<not> fault f AM_UserByEmail \<longrightarrow>
        (user_id_rows db (amr_Email req) = [] \<longrightarrow>
           AddMember f racing c db
             = (JSON 404 (ErrorBody ''user not found with this email''), db))
      \<and> (\<forall>userID rest.
           user_id_rows db (amr_Email req) = userID # rest \<and> \<not> fault f AM_AlreadyMember \<longrightarrow>
           ((groupID, userID) \<in> set (group_members db) \<longrightarrow>
              AddMember f racing c db = (JSON 400 (ErrorBody ''user already in group''), db))
         \<and> ((groupID, userID) \<notin> set (group_members db)
             \<and> (fault f AM_Insert \<or> (groupID, userID) \<in> set (group_members (racing db))) \<longrightarrow>
              AddMember f racing c db
                = (JSON 500 (ErrorBody ''failed to add member''), racing db))
         \<and> ((groupID, userID) \<notin> set (group_members db)
             \<and> \<not> fault f AM_Insert \<and> (groupID, userID) \<notin> set (group_members (racing db)) \<longrightarrow>
              AddMember f racing c db
                = (JSON 200 (MessageBody ''member added''),
                   (racing db)\<lparr>group_members := group_members (racing db) @ [(groupID, userID)]\<rparr>))))"
  using user param
  by (auto simp: AddMember_def QueryRow_def GetUserByEmail_def IsGroupMember_def
      insert_group_member_def)

text \<open>
  Member 1 adds the holder of b@x.org to group 7: when another request adds the
  same user in between, when none does, and asked by the non-member 2.
\<close>

theorem AddMember_witness:
  "c_user (adder 1 7 ''b@x.org'') = Some 1 \<and> c_param_id (adder 1 7 ''b@x.org'') = Some 7
   \<and> (7, 1) \<in> set (group_members db_solo)
   \<and> c_bind (adder 1 7 ''b@x.org'') = Inr \<lparr>amr_Email = ''b@x.org''\<rparr>
   \<and> user_id_rows db_solo ''b@x.org'' = [2]
   \<and> (7, 2) \<notin> set (group_members db_solo)
   \<and> (7, 2) \<in> set (group_members (other_adds_2 db_solo))
   \<and> AddMember no_faults other_adds_2 (adder 1 7 ''b@x.org'') db_solo
       = (JSON 500 (ErrorBody ''failed to add member''), other_adds_2 db_solo)
   \<and> AddMember no_faults id (adder 1 7 ''b@x.org'') db_solo
       = (JSON 200 (MessageBody ''member added''),
          (id db_solo)\<lparr>group_members := group_members (id db_solo) @ [(7, 2)]\<rparr>)
   \<and> AddMember no_faults id (adder 2 7 ''b@x.org'') db_solo
       = (JSON 403 (ErrorBody ''not a member of the group''), db_solo)"
proof -
  let ?c = "adder 1 7 ''b@x.org''"
  let ?req = "\<lparr>amr_Email = ''b@x.org''\<rparr>"
  have user: "c_user ?c = Some 1" and param: "c_param_id ?c = Some 7"
    and bind: "c_bind ?c = Inr ?req" and valid: "c_validate ?c ?req = None"
    by (simp_all add: adder_def)
  have member: "(7, 1) \<in> set (group_members db_solo)" by (simp add: sample_defs)
  have rows: "user_id_rows db_solo (amr_Email ?req) = 2 # []"
    by (simp add: user_id_rows_def sample_defs)
  have rows': "user_id_rows db_solo ''b@x.org'' = [2]"
    by (simp add: user_id_rows_def sample_defs)
  have fresh: "(7, 2) \<notin> set (group_members db_solo)" by (simp add: sample_defs)
  have raced: "(7, 2) \<in> set (group_members (other_adds_2 db_solo))"
    by (simp add: other_adds_2_def)
  have calm: "(7, 2) \<notin> set (group_members (id db_solo))" by (simp add: sample_defs)
  have nf: "\<not> fault no_faults s" for s by (simp add: no_faults_def)
  note race = AddMember_checks_in_order [OF user param, where f = no_faults
      and racing = other_adds_2 and db = db_solo and req = ?req]
  have lost: "AddMember no_faults other_adds_2 ?c db_solo
       = (JSON 500 (ErrorBody ''failed to add member''), other_adds_2 db_solo)"
    using race member bind valid rows fresh raced nf by blast
  note quiet = AddMember_checks_in_order [OF user param, where f = no_faults
      and racing = id and db = db_solo and req = ?req]
  have added: "AddMember no_faults id ?c db_solo
       = (JSON 200 (MessageBody ''member added''),
          (id db_solo)\<lparr>group_members := group_members (id db_solo) @ [(7, 2)]\<rparr>)"
    using quiet member bind valid rows fresh calm nf by blast
  have user2: "c_user (adder 2 7 ''b@x.org'') = Some 2"
    and param2: "c_param_id (adder 2 7 ''b@x.org'') = Some 7"
    by (simp_all add: adder_def)
  have refused: "AddMember no_faults id (adder 2 7 ''b@x.org'') db_solo
       = (JSON 403 (ErrorBody ''not a member of the group''), db_solo)"
    using AddMember_checks_in_order [OF user2 param2, where f = no_faults
      and racing = id and db = db_solo] fresh by blast
  show ?thesis by (intro conjI; fact)
qed

text \<open>
  Claim C6 as stated fails in the race: the insert fails because the row exists, and
  the response is 500, the kind Internal, not Conflict. The already-member check
  itself answers 400, the status of a malformed request, not 409.
\<close>

theorem AddMember_counterexample:
  "(7, 1) \<in> set (group_members db_solo)
   \<and> user_id_rows db_solo ''b@x.org'' = [2]
   \<and> (7, 2) \<notin> set (group_members db_solo)
   \<and> (7, 2) \<in> set (group_members (other_adds_2 db_solo))
   \<and> AddMember no_faults other_adds_2 (adder 1 7 ''b@x.org'') db_solo
       = (JSON 500 (ErrorBody ''failed to add member''), other_adds_2 db_solo)
   \<and> kind_of (JSON 500 (ErrorBody ''failed to add member'')) = Some Internal
   \<and> (7, 2) \<in> set (group_members db_pair)
   \<and> AddMember no_faults id (adder 1 7 ''b@x.org'') db_pair
       = (JSON 400 (ErrorBody ''user already in group''), db_pair)
   \<and> kind_of (JSON 400 (ErrorBody ''user already in group'')) = Some ValidationFailed"
proof -
  have member: "(7, 1) \<in> set (group_members db_solo)" by (simp add: sample_defs)
  have rows: "user_id_rows db_solo ''b@x.org'' = [2]"
    by (simp add: user_id_rows_def sample_defs)
  have fresh: "(7, 2) \<notin> set (group_members db_solo)" by (simp add: sample_defs)
  have raced: "(7, 2) \<in> set (group_members (other_adds_2 db_solo))"
    by (simp add: other_adds_2_def)
  have lost: "AddMember no_faults other_adds_2 (adder 1 7 ''b@x.org'') db_solo
       = (JSON 500 (ErrorBody ''failed to add member''), other_adds_2 db_solo)"
    by (simp add: AddMember_defs request_defs sample_defs)
  have k1: "kind_of (JSON 500 (ErrorBody ''failed to add member'')) = Some Internal"
    by (simp add: kind_of_def)
  have already: "(7, 2) \<in> set (group_members db_pair)" by (simp add: sample_defs)
  have dup: "AddMember no_faults id (adder 1 7 ''b@x.org'') db_pair
       = (JSON 400 (ErrorBody ''user already in group''), db_pair)"
    by (simp add: AddMember_defs request_defs sample_defs)
  have k2: "kind_of (JSON 400 (ErrorBody ''user already in group'')) = Some ValidationFailed"
    by (simp add: kind_of_def)
  show ?thesis by (intro conjI; fact)
qed

text \<open>
  Claim C7 at its failing input. The lookup of the target's email fails in the
  persistence layer; \<open>GetUserByEmail\<close> returns no error, and \<open>AddMember\<close>
  answers 404 "user not found with this email" although a user holds the email. The
  branch of \<open>AddMember\<close> that answers 500 on the helper's error is never taken.
\<close>

theorem lookup_failure_reported_as_not_found:
  "fault (failing_at AM_UserByEmail) AM_UserByEmail
   \<and> user_id_rows db_solo ''b@x.org'' = [2]
   \<and> GetUserByEmail True db_solo ''b@x.org'' = (uuid_Nil, False, None)
   \<and> AddMember (failing_at AM_UserByEmail) id (adder 1 7 ''b@x.org'') db_solo
       = (JSON 404 (ErrorBody ''user not found with this email''), db_solo)
   \<and> kind_of (JSON 404 (ErrorBody ''user not found with this email'')) = Some NotFound"
proof -
  have flt: "fault (failing_at AM_UserByEmail) AM_UserByEmail" by (simp add: failing_at_def)
  have rows: "user_id_rows db_solo ''b@x.org'' = [2]"
    by (simp add: user_id_rows_def sample_defs)
  have helper: "GetUserByEmail True db_solo ''b@x.org'' = (uuid_Nil, False, None)"
    by (simp add: GetUserByEmail_def QueryRow_def)
  have resp: "AddMember (failing_at AM_UserByEmail) id (adder 1 7 ''b@x.org'') db_solo
       = (JSON 404 (ErrorBody ''user not found with this email''), db_solo)"
    by (simp add: AddMember_defs request_defs sample_defs)
  have k: "kind_of (JSON 404 (ErrorBody ''user not found with this email'')) = Some NotFound"
    by (simp add: kind_of_def)
  show ?thesis by (intro conjI; fact)
qed

end
